theory Spec2Isabelle
  imports Complex_Main "HOL-Library.Word"
begin

section \<open>Data model of \<^verbatim>\<open>lib.hpp\<close>\<close>

text \<open>
  The C++ type \<^verbatim>\<open>unsigned\<close> is modelled as a 32-bit word: subtraction, addition and
  multiplication wrap around, comparison is unsigned. An index of type \<^verbatim>\<open>unsigned\<close>
  handed to \<^verbatim>\<open>std::vector::at\<close> is widened to \<^verbatim>\<open>size_t\<close> without change of value,
  which is \<^term>\<open>unat\<close>.
\<close>

type_synonym u32 = "32 word"

text \<open>
  The C++ type \<^verbatim>\<open>double\<close> is the type parameter \<open>'d\<close> of the model. Its operators
  \<^verbatim>\<open>+\<close>, \<^verbatim>\<open>-\<close>, \<^verbatim>\<open>*\<close>, \<^verbatim>\<open>/\<close>, \<^verbatim>\<open><\<close>, \<^verbatim>\<open>>=\<close> and its values \<^verbatim>\<open>0.0\<close>, \<^verbatim>\<open>1.0\<close> are the
  operations of the classes \<open>plus\<close>, \<open>minus\<close>, \<open>uminus\<close>, \<open>times\<close>, \<open>inverse\<close>, \<open>ord\<close>,
  \<open>zero\<close> and \<open>one\<close>, which fix a symbol and assume no law of arithmetic. What the
  code takes from the C library and the literal \<^verbatim>\<open>0.8\<close> are passed as a record. Nothing
  is assumed of any of them, so that what is proved for every \<open>'d\<close> holds for the
  binary64 arithmetic of the machine, with its rounding, overflow to an infinity,
  underflow and NaN. The instance \<open>real_fp\<close> on \<^typ>\<open>real\<close> is exact arithmetic; the
  examples are computed in it.
\<close>

record 'd fp_ops =
  fp_sqrt :: "'d \<Rightarrow> 'd"
  fp_pow :: "'d \<Rightarrow> u32 \<Rightarrow> 'd"
  fp_0_8 :: 'd

definition real_fp :: "real fp_ops" where
  "real_fp = \<lparr>fp_sqrt = sqrt, fp_pow = (\<lambda>b iter. b ^ unat iter), fp_0_8 = 8 / 10\<rparr>"

text \<open>
  The exceptions of the library: \<^verbatim>\<open>std::out_of_range\<close> (thrown by \<^verbatim>\<open>vector::at\<close>),
  \<^verbatim>\<open>std::invalid_argument\<close> with its message, and the undefined behaviour of an
  integer division by zero (a trap on the usual targets).
\<close>

datatype error = OutOfRange | InvalidArgument string | DivisionByZero

text \<open>
  A function without a loop returns \<open>error + 'a\<close>. A function with a loop returns
  \<open>(error + 'a) option\<close>, where \<open>None\<close> says that the call does not return.
\<close>

fun bind_r :: "error + 'a \<Rightarrow> ('a \<Rightarrow> error + 'b) \<Rightarrow> error + 'b" where
  "bind_r (Inl e) f = Inl e"
| "bind_r (Inr x) f = f x"

fun bind_o :: "(error + 'a) option \<Rightarrow> ('a \<Rightarrow> (error + 'b) option) \<Rightarrow> (error + 'b) option" where
  "bind_o None f = None"
| "bind_o (Some (Inl e)) f = Some (Inl e)"
| "bind_o (Some (Inr x)) f = f x"

text \<open>The class \<^verbatim>\<open>Matrix\<close>: the dimensions \<^verbatim>\<open>m\<close>, \<^verbatim>\<open>n\<close> and the rows \<^verbatim>\<open>v\<close>.\<close>

record 'd Matrix =
  mat_m :: u32
  mat_n :: u32
  mat_v :: "'d list list"

text \<open>
  The invariant the constructors establish (and the spec's "all rows have exactly
  \<open>n\<close> elements"): \<^verbatim>\<open>v\<close> has \<^verbatim>\<open>m\<close> rows of \<^verbatim>\<open>n\<close> elements each.
\<close>

definition wf_Matrix :: "'d Matrix \<Rightarrow> bool" where
  "wf_Matrix A \<longleftrightarrow>
     length (mat_v A) = unat (mat_m A) \<and> list_all (\<lambda>r. length r = unat (mat_n A)) (mat_v A)"

text \<open>\<^verbatim>\<open>std::vector::at\<close>: the element, or \<^verbatim>\<open>std::out_of_range\<close>.\<close>

definition vector_at :: "'a list \<Rightarrow> nat \<Rightarrow> error + 'a" where
  "vector_at xs k = (if k < length xs then Inr (xs ! k) else Inl OutOfRange)"

text \<open>\<^verbatim>\<open>Matrix::Matrix(unsigned rows, unsigned cols, double value)\<close>\<close>

definition Matrix_fill :: "u32 \<Rightarrow> u32 \<Rightarrow> 'd \<Rightarrow> 'd Matrix" where
  "Matrix_fill rows cols val =
     \<lparr>mat_m = rows, mat_n = cols, mat_v = replicate (unat rows) (replicate (unat cols) val)\<rparr>"

text \<open>
  \<^verbatim>\<open>Matrix::Matrix(const vector<double>&)\<close>: a column vector. The counter of its loop is
  an \<^verbatim>\<open>unsigned\<close> compared with a \<^verbatim>\<open>size_t\<close>: on a vector of \<open>2^32\<close> elements or more
  the loop does not end.
\<close>

definition Matrix_vector :: "'d list \<Rightarrow> 'd Matrix option" where
  "Matrix_vector w =
     (if length w < 2 ^ 32
      then Some \<lparr>mat_m = of_nat (length w), mat_n = 1, mat_v = map (\<lambda>x. [x]) w\<rparr>
      else None)"

text \<open>\<^verbatim>\<open>getCols\<close>, \<^verbatim>\<open>getRows\<close>, \<^verbatim>\<open>length\<close> (the product wraps around).\<close>

definition Matrix_getCols :: "'d Matrix \<Rightarrow> u32" where
  "Matrix_getCols A = mat_n A"

definition Matrix_getRows :: "'d Matrix \<Rightarrow> u32" where
  "Matrix_getRows A = mat_m A"

definition Matrix_length :: "'d Matrix \<Rightarrow> u32" where
  "Matrix_length A = mat_m A * mat_n A"

text \<open>\<^verbatim>\<open>double Matrix::get(unsigned i) const { return v.at((i - 1) % m).at((i-1) / m); }\<close>\<close>

definition Matrix_get_i :: "'d Matrix \<Rightarrow> u32 \<Rightarrow> error + 'd" where
  "Matrix_get_i A i =
     (if mat_m A = 0 then Inl DivisionByZero
      else bind_r (vector_at (mat_v A) (unat ((i - 1) mod mat_m A)))
             (\<lambda>row. vector_at row (unat ((i - 1) div mat_m A))))"

text \<open>\<^verbatim>\<open>void Matrix::set(unsigned i, double value) { v.at((i - 1) % m).at((i-1) / m) = value; }\<close>\<close>

definition Matrix_set_i :: "'d Matrix \<Rightarrow> u32 \<Rightarrow> 'd \<Rightarrow> error + 'd Matrix" where
  "Matrix_set_i A i val =
     (if mat_m A = 0 then Inl DivisionByZero
      else bind_r (vector_at (mat_v A) (unat ((i - 1) mod mat_m A)))
             (\<lambda>row. bind_r (vector_at row (unat ((i - 1) div mat_m A)))
                (\<lambda>_. Inr (A\<lparr>mat_v := (mat_v A)[unat ((i - 1) mod mat_m A) :=
                                   row[unat ((i - 1) div mat_m A) := val]]\<rparr>))))"

text \<open>\<^verbatim>\<open>double Matrix::get(unsigned i, unsigned j) const { return v.at(i-1).at(j-1); }\<close>\<close>

definition Matrix_get_ij :: "'d Matrix \<Rightarrow> u32 \<Rightarrow> u32 \<Rightarrow> error + 'd" where
  "Matrix_get_ij A i j =
     bind_r (vector_at (mat_v A) (unat (i - 1))) (\<lambda>row. vector_at row (unat (j - 1)))"

text \<open>\<^verbatim>\<open>void Matrix::set(unsigned i, unsigned j, double value) { v.at(i-1).at(j-1) = value; }\<close>\<close>

definition Matrix_set_ij :: "'d Matrix \<Rightarrow> u32 \<Rightarrow> u32 \<Rightarrow> 'd \<Rightarrow> error + 'd Matrix" where
  "Matrix_set_ij A i j val =
     bind_r (vector_at (mat_v A) (unat (i - 1)))
       (\<lambda>row. bind_r (vector_at row (unat (j - 1)))
          (\<lambda>_. Inr (A\<lparr>mat_v := (mat_v A)[unat (i - 1) := row[unat (j - 1) := val]]\<rparr>)))"

text \<open>
  The loop \<^verbatim>\<open>for (unsigned i = lo; i <= hi; ++i) body\<close> on a state \<open>s\<close>. The counter
  wraps around at \<open>2^32\<close>, so that with \<open>hi = 2^32 - 1\<close> the test never fails: the loop
  ends only when its body throws.
\<close>

partial_function (option) for_loop ::
  "(u32 \<Rightarrow> 's \<Rightarrow> (error + 's) option) \<Rightarrow> u32 \<Rightarrow> u32 \<Rightarrow> 's \<Rightarrow> (error + 's) option" where
  "for_loop body hi i s =
     (if i \<le> hi then
        (case body i s of
           None \<Rightarrow> None
         | Some (Inl e) \<Rightarrow> Some (Inl e)
         | Some (Inr s') \<Rightarrow> for_loop body hi (i + 1) s')
      else Some (Inr s))"

text \<open>
  The elementwise operators share one shape:
  \<^verbatim>\<open>Matrix a(m, n); for i in 1..m: for j in 1..n: a.set(i, j, <expression in i, j>); return a;\<close>
  The expression is evaluated before \<^verbatim>\<open>set\<close> is called.
\<close>

definition Matrix_plus :: "('d::{zero,plus}) Matrix \<Rightarrow> 'd Matrix \<Rightarrow> (error + 'd Matrix) option" where
  "Matrix_plus A B =
     for_loop (\<lambda>i a.
       for_loop (\<lambda>j a. Some (
           bind_r (Matrix_get_ij A i j) (\<lambda>x.
           bind_r (Matrix_get_ij B i j) (\<lambda>y.
           Matrix_set_ij a i j (x + y)))))
         (mat_n A) 1 a)
       (mat_m A) 1 (Matrix_fill (mat_m A) (mat_n A) 0)"

definition Matrix_minus :: "('d::{zero,minus}) Matrix \<Rightarrow> 'd Matrix \<Rightarrow> (error + 'd Matrix) option" where
  "Matrix_minus A B =
     for_loop (\<lambda>i a.
       for_loop (\<lambda>j a. Some (
           bind_r (Matrix_get_ij A i j) (\<lambda>x.
           bind_r (Matrix_get_ij B i j) (\<lambda>y.
           Matrix_set_ij a i j (x - y)))))
         (mat_n A) 1 a)
       (mat_m A) 1 (Matrix_fill (mat_m A) (mat_n A) 0)"

text \<open>\<^verbatim>\<open>Matrix Matrix::operator*(double s) const\<close>\<close>

definition Matrix_times_scalar :: "('d::{zero,times}) Matrix \<Rightarrow> 'd \<Rightarrow> (error + 'd Matrix) option" where
  "Matrix_times_scalar A s =
     for_loop (\<lambda>i a.
       for_loop (\<lambda>j a. Some (
           bind_r (Matrix_get_ij A i j) (\<lambda>x.
           Matrix_set_ij a i j (s * x))))
         (mat_n A) 1 a)
       (mat_m A) 1 (Matrix_fill (mat_m A) (mat_n A) 0)"

text \<open>\<^verbatim>\<open>Matrix operator*(double s, const Matrix& o) { return o * s; }\<close>\<close>

definition scalar_times_Matrix :: "'d::{zero,times} \<Rightarrow> 'd Matrix \<Rightarrow> (error + 'd Matrix) option" where
  "scalar_times_Matrix s B = Matrix_times_scalar B s"

text \<open>\<^verbatim>\<open>Matrix Matrix::operator/(double s) const\<close>: the body is \<^verbatim>\<open>a.set(i, j, s / get(i,j))\<close>.\<close>

definition Matrix_div_scalar :: "('d::{zero,inverse}) Matrix \<Rightarrow> 'd \<Rightarrow> (error + 'd Matrix) option" where
  "Matrix_div_scalar A s =
     for_loop (\<lambda>i a.
       for_loop (\<lambda>j a. Some (
           bind_r (Matrix_get_ij A i j) (\<lambda>x.
           Matrix_set_ij a i j (s / x))))
         (mat_n A) 1 a)
       (mat_m A) 1 (Matrix_fill (mat_m A) (mat_n A) 0)"

text \<open>\<^verbatim>\<open>Matrix Matrix::transpose() const\<close>: the body is \<^verbatim>\<open>w.set(j,i,get(i,j))\<close>.\<close>

definition Matrix_transpose :: "('d::zero) Matrix \<Rightarrow> (error + 'd Matrix) option" where
  "Matrix_transpose A =
     for_loop (\<lambda>i w.
       for_loop (\<lambda>j w. Some (
           bind_r (Matrix_get_ij A i j) (\<lambda>x.
           Matrix_set_ij w j i x)))
         (Matrix_getCols A) 1 w)
       (Matrix_getRows A) 1 (Matrix_fill (Matrix_getCols A) (Matrix_getRows A) 0)"

definition Matrix_t :: "('d::zero) Matrix \<Rightarrow> (error + 'd Matrix) option" where
  "Matrix_t A = Matrix_transpose A"

definition Matrix_isVector :: "'d Matrix \<Rightarrow> bool" where
  "Matrix_isVector A \<longleftrightarrow> mat_m A = 1 \<or> mat_n A = 1"

text \<open>
  \<^verbatim>\<open>double Matrix::det2() const\<close>. The operands of the product and of the difference are
  taken from left to right; each of them can only throw \<^verbatim>\<open>std::out_of_range\<close>.
\<close>

definition Matrix_det2 :: "('d::{times,minus}) Matrix \<Rightarrow> error + 'd" where
  "Matrix_det2 A =
     (if mat_m A \<noteq> 2 \<and> mat_n A \<noteq> 2
      then Inl (InvalidArgument ''Can't apply det2 to a non 2x2 matrix'')
      else bind_r (Matrix_get_ij A 1 1) (\<lambda>a11.
           bind_r (Matrix_get_ij A 2 2) (\<lambda>a22.
           bind_r (Matrix_get_ij A 1 2) (\<lambda>a12.
           bind_r (Matrix_get_ij A 2 1) (\<lambda>a21.
           Inr (a11 * a22 - a12 * a21))))))"

text \<open>
  \<^verbatim>\<open>double Matrix::mod() const\<close>: \<^verbatim>\<open>double sum = 0.0;\<close> then
  \<^verbatim>\<open>sum += get(i) * get(i)\<close> for \<open>i\<close> from 1 to \<^verbatim>\<open>length()\<close>, then \<^verbatim>\<open>sqrt(sum)\<close>.
\<close>

definition Matrix_mod :: "('d::{zero,plus,times}) fp_ops \<Rightarrow> 'd Matrix \<Rightarrow> (error + 'd) option" where
  "Matrix_mod fp A =
     bind_o (for_loop (\<lambda>i sum. Some (
                 bind_r (Matrix_get_i A i) (\<lambda>x.
                 bind_r (Matrix_get_i A i) (\<lambda>y.
                 Inr (sum + x * y)))))
               (Matrix_length A) 1 0)
       (\<lambda>sum. Some (Inr (fp_sqrt fp sum)))"

definition Matrix_x :: "'d Matrix \<Rightarrow> error + 'd" where
  "Matrix_x A =
     (if mat_m A = 1 \<and> mat_n A = 1 then Matrix_get_ij A 1 1
      else Inl (InvalidArgument ''Not a 1x1 Matrix''))"

definition Matrix_x1 :: "'d Matrix \<Rightarrow> error + 'd" where
  "Matrix_x1 A =
     (if mat_m A = 2 \<and> mat_n A = 1 then Matrix_get_ij A 1 1
      else Inl (InvalidArgument ''Not a 2x1 column vector''))"

definition Matrix_x2 :: "'d Matrix \<Rightarrow> error + 'd" where
  "Matrix_x2 A =
     (if mat_m A = 2 \<and> mat_n A = 1 then Matrix_get_ij A 2 1
      else Inl (InvalidArgument ''Not a 2x1 column vector''))"

text \<open>
  \<^verbatim>\<open>Matrix Matrix::operator*(const Matrix& o) const\<close>: the result matrix is built, the
  inner dimensions are compared, then the triple loop runs.
\<close>

definition Matrix_times :: "('d::{zero,plus,times}) Matrix \<Rightarrow> 'd Matrix \<Rightarrow> (error + 'd Matrix) option" where
  "Matrix_times A B =
     (if Matrix_getCols A \<noteq> Matrix_getRows B
      then Some (Inl (InvalidArgument ''Invalid matrix multiplication''))
      else
        for_loop (\<lambda>i w.
          for_loop (\<lambda>j w.
              bind_o (for_loop (\<lambda>k sum. Some (
                          bind_r (Matrix_get_ij A i k) (\<lambda>x.
                          bind_r (Matrix_get_ij B k j) (\<lambda>y.
                          Inr (sum + x * y)))))
                        (Matrix_getCols A) 1 0)
                (\<lambda>sum. Some (Matrix_set_ij w i j sum)))
            (Matrix_getCols B) 1 w)
          (Matrix_getRows A) 1 (Matrix_fill (Matrix_getRows A) (Matrix_getCols B) 0))"

section \<open>Armijo line search and gradient method\<close>

text \<open>
  The objective and its gradient are function pointers \<^verbatim>\<open>double (*f)(Matrix)\<close> and
  \<^verbatim>\<open>Matrix (*gradf)(Matrix)\<close>: functions of the matrix alone, which may throw (as
  \<^verbatim>\<open>fa\<close> does through \<^verbatim>\<open>x1()\<close>) and are taken to return.

  The test of the line search, at the value \<open>p\<close> of \<^verbatim>\<open>pow(beta, iter)\<close>:
  \<^verbatim>\<open>((*f)(x) - (*f)(x + s * pow(beta, iter) * d)) >=
      -sigma * s * pow(beta, iter) * (((*gradf)(x)).t() * d).x()\<close>
  C++ leaves the order of the operands open; they are taken from left to right here.
\<close>

definition armijo_test ::
  "'d::{zero,plus,minus,uminus,times,ord} \<Rightarrow> 'd \<Rightarrow> ('d Matrix \<Rightarrow> error + 'd) \<Rightarrow> ('d Matrix \<Rightarrow> error + 'd Matrix) \<Rightarrow>
   'd Matrix \<Rightarrow> 'd Matrix \<Rightarrow> 'd \<Rightarrow> (error + bool) option" where
  "armijo_test s sigma f gradf x d p =
     bind_o (Some (f x)) (\<lambda>fx.
     bind_o (scalar_times_Matrix (s * p) d) (\<lambda>td.
     bind_o (Matrix_plus x td) (\<lambda>xtd.
     bind_o (Some (f xtd)) (\<lambda>fxtd.
     bind_o (Some (gradf x)) (\<lambda>g.
     bind_o (Matrix_t g) (\<lambda>gt.
     bind_o (Matrix_times gt d) (\<lambda>gtd.
     bind_o (Some (Matrix_x gtd)) (\<lambda>gd.
     Some (Inr (fx - fxtd \<ge> - sigma * s * p * gd))))))))))"

text \<open>
  \<^verbatim>\<open>while (true) { if (<test>) break; ++iter; }\<close> with \<^verbatim>\<open>unsigned iter\<close>: the result is
  the counter at which the test holds; \<open>test iter\<close> is the test at the counter \<open>iter\<close>.
  The counter wraps around at \<open>2^32\<close>.
\<close>

partial_function (option) armijo_loop ::
  "(u32 \<Rightarrow> (error + bool) option) \<Rightarrow> u32 \<Rightarrow> (error + u32) option" where
  "armijo_loop test iter =
     (case test iter of
        None \<Rightarrow> None
      | Some (Inl e) \<Rightarrow> Some (Inl e)
      | Some (Inr b) \<Rightarrow>
          (if b then Some (Inr iter)
           else armijo_loop test (iter + 1)))"

text \<open>
  \<^verbatim>\<open>armijo_call\<close>: the loop from \<^verbatim>\<open>iter = 0\<close>, where \<^verbatim>\<open>pow(beta, iter)\<close> is
  \<open>fp_pow fp beta iter\<close> (the counter is converted to \<^verbatim>\<open>double\<close> without change of
  value); after the loop, \<^verbatim>\<open>double t = s * pow(beta, iter); return t;\<close>
\<close>

definition armijo_call ::
  "('d::{zero,plus,minus,uminus,times,ord}) fp_ops \<Rightarrow> 'd \<Rightarrow> 'd \<Rightarrow> 'd \<Rightarrow> ('d Matrix \<Rightarrow> error + 'd) \<Rightarrow> ('d Matrix \<Rightarrow> error + 'd Matrix) \<Rightarrow>
   'd Matrix \<Rightarrow> 'd Matrix \<Rightarrow> (error + 'd) option" where
  "armijo_call fp s beta sigma f gradf x d =
     bind_o (armijo_loop (\<lambda>iter. armijo_test s sigma f gradf x d (fp_pow fp beta iter)) 0)
       (\<lambda>iter. Some (Inr (s * fp_pow fp beta iter)))"

text \<open>The stopping test of \<^verbatim>\<open>gradient_method\<close>: \<^verbatim>\<open>((*gradf)(xk)).mod() < epsilon\<close>.\<close>

definition gradient_stop ::
  "('d::{zero,plus,times,ord}) fp_ops \<Rightarrow> ('d Matrix \<Rightarrow> error + 'd Matrix) \<Rightarrow> 'd \<Rightarrow> 'd Matrix \<Rightarrow> (error + bool) option" where
  "gradient_stop fp gradf epsilon xk =
     bind_o (Some (gradf xk)) (\<lambda>g.
     bind_o (Matrix_mod fp g) (\<lambda>nrm.
     Some (Inr (nrm < epsilon))))"

text \<open>
  The rest of the loop body: \<^verbatim>\<open>dk = (-1) * (*gradf)(xk);\<close>
  \<^verbatim>\<open>double ak = armijo_call(0.8, 0.8, 0.8, f, gradf, xk, dk);\<close>
  \<^verbatim>\<open>xnext = xk + ak * dk; xk = xnext;\<close>
  The integer \<^verbatim>\<open>-1\<close> is converted to the \<^verbatim>\<open>double\<close> \<open>- 1\<close>. The counters \<^verbatim>\<open>iter\<close> and
  \<^verbatim>\<open>n_call_armijo\<close> are only printed and are left out.
\<close>

definition gradient_update ::
  "('d::{zero,one,plus,minus,uminus,times,ord}) fp_ops \<Rightarrow> ('d Matrix \<Rightarrow> error + 'd) \<Rightarrow> ('d Matrix \<Rightarrow> error + 'd Matrix) \<Rightarrow> 'd Matrix \<Rightarrow>
   (error + 'd Matrix) option" where
  "gradient_update fp f gradf xk =
     bind_o (Some (gradf xk)) (\<lambda>g.
     bind_o (scalar_times_Matrix (- 1) g) (\<lambda>dk.
     bind_o (armijo_call fp (fp_0_8 fp) (fp_0_8 fp) (fp_0_8 fp) f gradf xk dk) (\<lambda>ak.
     bind_o (scalar_times_Matrix ak dk) (\<lambda>akdk.
     Matrix_plus xk akdk))))"

partial_function (option) gradient_loop ::
  "('d::{zero,one,plus,minus,uminus,times,ord}) fp_ops \<Rightarrow> ('d Matrix \<Rightarrow> error + 'd) \<Rightarrow> ('d Matrix \<Rightarrow> error + 'd Matrix) \<Rightarrow> 'd \<Rightarrow> 'd Matrix \<Rightarrow>
   (error + 'd Matrix) option" where
  "gradient_loop fp f gradf epsilon xk =
     (case gradient_stop fp gradf epsilon xk of
        None \<Rightarrow> None
      | Some (Inl e) \<Rightarrow> Some (Inl e)
      | Some (Inr stop) \<Rightarrow>
          (if stop then Some (Inr xk)
           else (case gradient_update fp f gradf xk of
                   None \<Rightarrow> None
                 | Some (Inl e) \<Rightarrow> Some (Inl e)
                 | Some (Inr xnext) \<Rightarrow> gradient_loop fp f gradf epsilon xnext)))"

text \<open>
  \<^verbatim>\<open>gradient_method\<close>: the output before the loop evaluates \<^verbatim>\<open>x0.x1()\<close> and \<^verbatim>\<open>x0.x2()\<close>,
  the output after it evaluates \<^verbatim>\<open>xk.x1()\<close>, \<^verbatim>\<open>xk.x2()\<close> and \<^verbatim>\<open>(*f)(xk)\<close>; what is
  printed is not modelled, what these calls throw is.
\<close>

definition gradient_method ::
  "('d::{zero,one,plus,minus,uminus,times,ord}) fp_ops \<Rightarrow> ('d Matrix \<Rightarrow> error + 'd) \<Rightarrow> ('d Matrix \<Rightarrow> error + 'd Matrix) \<Rightarrow> 'd Matrix \<Rightarrow> 'd \<Rightarrow>
   (error + 'd Matrix) option" where
  "gradient_method fp f gradf x0 epsilon =
     bind_o (Some (Matrix_x1 x0)) (\<lambda>_.
     bind_o (Some (Matrix_x2 x0)) (\<lambda>_.
     bind_o (gradient_loop fp f gradf epsilon x0) (\<lambda>xk.
     bind_o (Some (Matrix_x1 xk)) (\<lambda>_.
     bind_o (Some (Matrix_x2 xk)) (\<lambda>_.
     bind_o (Some (f xk)) (\<lambda>_.
     Some (Inr xk)))))))"

section \<open>Definitions used in the proofs\<close>

text \<open>
  The loop \<^const>\<open>for_loop\<close> unrolled over the list of the values its counter takes: when
  the upper bound is below \<open>2^32 - 1\<close> the counter does not wrap and the loop runs over
  \<open>[lo..hi]\<close> (lemma \<open>for_loop_upto\<close>).
\<close>

fun for_list :: "(u32 \<Rightarrow> 's \<Rightarrow> (error + 's) option) \<Rightarrow> nat list \<Rightarrow> 's \<Rightarrow> (error + 's) option" where
  "for_list body [] s = Some (Inr s)"
| "for_list body (k # ks) s =
     (case body (of_nat k) s of
        None \<Rightarrow> None
      | Some (Inl e) \<Rightarrow> Some (Inl e)
      | Some (Inr s') \<Rightarrow> for_list body ks s')"

text \<open>
  \<open>writes S Y a a'\<close>: the matrix \<open>a'\<close> has the shape of \<open>a\<close>, holds \<open>Y p q\<close> in the
  cells \<open>(p, q)\<close> of \<open>S\<close> (counted from 0) and the elements of \<open>a\<close> elsewhere.
\<close>

definition writes :: "(nat \<times> nat) set \<Rightarrow> (nat \<Rightarrow> nat \<Rightarrow> 'd) \<Rightarrow> 'd Matrix \<Rightarrow> 'd Matrix \<Rightarrow> bool" where
  "writes S Y a a' \<longleftrightarrow>
     wf_Matrix a' \<and> mat_m a' = mat_m a \<and> mat_n a' = mat_n a \<and>
     (\<forall>p < unat (mat_m a). \<forall>q < unat (mat_n a).
        mat_v a' ! p ! q = (if (p, q) \<in> S then Y p q else mat_v a ! p ! q))"

text \<open>
  An example for the line search on 1x1 matrices: the objective is \<open>- a\<close> up to
  \<open>a = 1/4\<close> and 0 beyond, the gradient handed over is the constant \<open>- 1\<close>. At the
  point 0 in the direction 1, with \<open>s = 1\<close> and \<open>sigma = 1/2\<close>, the test of the line
  search at the step \<open>t > 0\<close> is \<open>t \<le> 1/4\<close>.
\<close>

abbreviation (input) f_step :: "real Matrix \<Rightarrow> error + real" where
  "f_step \<equiv> \<lambda>A. bind_r (Matrix_x A) (\<lambda>a. Inr (if a \<le> 1 / 4 then - a else 0))"

abbreviation (input) gradf_const :: "real Matrix \<Rightarrow> error + real Matrix" where
  "gradf_const \<equiv> \<lambda>A. Inr (Matrix_fill 1 1 (- 1))"

text \<open>
  The 2x1 column vector with the elements \<open>a\<close> and \<open>b\<close>, as \<^verbatim>\<open>Matrix(std::vector<double>)\<close>
  builds it from \<open>[a, b]\<close>.
\<close>

abbreviation (input) vec2 :: "'d \<Rightarrow> 'd \<Rightarrow> 'd Matrix" where
  "vec2 a b \<equiv> \<lparr>mat_m = 2, mat_n = 1, mat_v = [[a], [b]]\<rparr>"

text \<open>
  An example for the driver: the objective \<open>f(x) = (x1^2 + x2^2) / 2\<close> on 2x1 vectors,
  read through \<^verbatim>\<open>x1()\<close> and \<^verbatim>\<open>x2()\<close> as \<^verbatim>\<open>fa\<close> does, and its gradient \<open>gradf(x) = x\<close>.
\<close>

abbreviation (input) f_half_square :: "real Matrix \<Rightarrow> error + real" where
  "f_half_square \<equiv> \<lambda>A. bind_r (Matrix_x1 A) (\<lambda>a. bind_r (Matrix_x2 A) (\<lambda>b. Inr ((a * a + b * b) / 2)))"

abbreviation (input) gradf_identity :: "real Matrix \<Rightarrow> error + real Matrix" where
  "gradf_identity \<equiv> \<lambda>A. Inr A"

text \<open>
  Two more objectives for the driver, with the constant gradient \<open>(1, 0)\<close>: the constant
  objective 0, on which the test of the line search fails at every step, and an objective
  that throws.
\<close>

abbreviation (input) f_zero :: "real Matrix \<Rightarrow> error + real" where
  "f_zero \<equiv> \<lambda>A. Inr 0"


abbreviation (input) gradf_first_axis :: "real Matrix \<Rightarrow> error + real Matrix" where
  "gradf_first_axis \<equiv> \<lambda>A. Inr (vec2 1 0)"

section \<open>Words and element access\<close>

lemma unat_max_u32: "unat (- 1 :: u32) = 4294967295"
  by (simp add: unsigned_minus_1_eq_mask mask_eq_exp_minus_1)

lemma unat_u32_less: "unat (i :: u32) < 4294967296"
  using unsigned_less [of i, where 'a = nat] by simp

lemma unat_pred_u32: "unat (i - 1 :: u32) = (if i = 0 then 4294967295 else unat i - 1)"
  by (simp add: unat_minus_one unat_max_u32)

lemma get_ij_errors: "Matrix_get_ij A i j = Inl e \<Longrightarrow> e = OutOfRange"
  by (auto simp: Matrix_get_ij_def vector_at_def split: if_splits)

lemma wf_row_length: "wf_Matrix A \<Longrightarrow> k < unat (mat_m A) \<Longrightarrow> length (mat_v A ! k) = unat (mat_n A)"
  by (simp add: wf_Matrix_def list_all_length)

lemma wf_rows: "wf_Matrix A \<Longrightarrow> length (mat_v A) = unat (mat_m A)"
  by (simp add: wf_Matrix_def)

lemma get_ij_wf:
  assumes "wf_Matrix A"
  shows "Matrix_get_ij A i j =
     (if unat (i - 1) < unat (mat_m A) \<and> unat (j - 1) < unat (mat_n A)
      then Inr (mat_v A ! unat (i - 1) ! unat (j - 1)) else Inl OutOfRange)"
  using assms by (auto simp: Matrix_get_ij_def vector_at_def wf_rows wf_row_length)

lemma row_index_less: "(k :: u32) \<noteq> 0 \<Longrightarrow> unat (j mod k) < unat k"
  by (simp add: unat_mod_distrib unat_gt_0)

lemma get_i_wf:
  assumes "wf_Matrix A" "mat_m A \<noteq> 0"
  shows "Matrix_get_i A i =
     (if unat (i - 1) div unat (mat_m A) < unat (mat_n A)
      then Inr (mat_v A ! (unat (i - 1) mod unat (mat_m A)) ! (unat (i - 1) div unat (mat_m A)))
      else Inl OutOfRange)"
  using assms row_index_less [of "mat_m A" "i - 1"]
  by (auto simp: Matrix_get_i_def vector_at_def wf_rows wf_row_length unat_div_distrib unat_mod_distrib)

lemma set_i_wf:
  assumes "wf_Matrix A" "mat_m A \<noteq> 0"
  shows "Matrix_set_i A i val =
     (if unat (i - 1) div unat (mat_m A) < unat (mat_n A)
      then Inr (A\<lparr>mat_v := (mat_v A)[unat (i - 1) mod unat (mat_m A) :=
                 (mat_v A ! (unat (i - 1) mod unat (mat_m A)))[unat (i - 1) div unat (mat_m A) := val]]\<rparr>)
      else Inl OutOfRange)"
  using assms row_index_less [of "mat_m A" "i - 1"]
  by (auto simp: Matrix_set_i_def vector_at_def wf_rows wf_row_length unat_div_distrib unat_mod_distrib)

lemma set_ij_wf:
  assumes "wf_Matrix A"
  shows "Matrix_set_ij A i j val =
     (if unat (i - 1) < unat (mat_m A) \<and> unat (j - 1) < unat (mat_n A)
      then Inr (A\<lparr>mat_v := (mat_v A)[unat (i - 1) := (mat_v A ! unat (i - 1))[unat (j - 1) := val]]\<rparr>)
      else Inl OutOfRange)"
  using assms by (auto simp: Matrix_set_ij_def vector_at_def wf_rows wf_row_length)

lemma linear_index_in_range:
  assumes "mat_m A \<noteq> 0" "unat (mat_m A) * unat (mat_n A) < 2 ^ 32"
  shows "unat (i - 1 :: u32) div unat (mat_m A) < unat (mat_n A) \<longleftrightarrow>
         1 \<le> unat i \<and> unat i \<le> unat (mat_m A) * unat (mat_n A)"
proof -
  have pos: "0 < unat (mat_m A)" using assms(1) by (simp add: unat_gt_0)
  have iff: "unat (i - 1) div unat (mat_m A) < unat (mat_n A) \<longleftrightarrow>
             unat (i - 1) < unat (mat_n A) * unat (mat_m A)"
    using pos by (simp add: div_less_iff_less_mult)
  show ?thesis
  proof (cases "i = 0")
    case True
    then show ?thesis using iff assms(2) by (simp add: unat_max_u32 mult.commute)
  next
    case False
    then have "0 < unat i" by (simp add: unat_gt_0)
    then show ?thesis using iff False by (auto simp: unat_pred_u32 mult.commute)
  qed
qed

lemma linear_row_col:
  assumes "mat_m A \<noteq> 0" "unat (i - 1 :: u32) div unat (mat_m A) < unat (mat_n A)"
  shows "unat ((i - 1) mod mat_m A + 1) = unat (i - 1) mod unat (mat_m A) + 1"
    and "unat ((i - 1) div mat_m A + 1) = unat (i - 1) div unat (mat_m A) + 1"
proof -
  have r: "unat ((i - 1) mod mat_m A) < unat (mat_m A)" using assms(1) by (rule row_index_less)
  have "unat ((i - 1) mod mat_m A) + 1 < 2 ^ 32" using r unat_u32_less [of "mat_m A"] by simp
  then show "unat ((i - 1) mod mat_m A + 1) = unat (i - 1) mod unat (mat_m A) + 1"
    by (simp add: unat_add_lem [THEN iffD1] unat_mod_distrib)
  have "unat ((i - 1) div mat_m A) + 1 < 2 ^ 32"
    using assms(2) unat_u32_less [of "mat_n A"] by (simp add: unat_div_distrib)
  then show "unat ((i - 1) div mat_m A + 1) = unat (i - 1) div unat (mat_m A) + 1"
    by (simp add: unat_add_lem [THEN iffD1] unat_div_distrib)
qed

text \<open>
  Claim C4, as it holds on the code. For a matrix of \<open>m\<close> rows and \<open>n\<close> columns with
  \<open>m, n \<ge> 1\<close> whose element count \<open>m * n\<close> is below \<open>2^32\<close>: \<^verbatim>\<open>get(i)\<close> and
  \<^verbatim>\<open>set(i, v)\<close> succeed when \<open>1 \<le> i \<le> m * n\<close> and throw \<^verbatim>\<open>std::out_of_range\<close>
  otherwise; when they succeed they are \<^verbatim>\<open>get(r, c)\<close> and \<^verbatim>\<open>set(r, c, v)\<close> at row
  \<open>r = ((i-1) mod m) + 1\<close> and column \<open>c = ((i-1) div m) + 1\<close>: column-major order.
\<close>

theorem linear_access_column_major:
  assumes "wf_Matrix A" and "mat_m A \<noteq> 0" and "mat_n A \<noteq> 0"
    and "unat (mat_m A) * unat (mat_n A) < 2 ^ 32"
  shows "(if 1 \<le> unat i \<and> unat i \<le> unat (mat_m A) * unat (mat_n A)
          then (\<exists>x. Matrix_get_i A i = Inr x) \<and> (\<exists>B. Matrix_set_i A i val = Inr B)
             \<and> Matrix_get_i A i = Matrix_get_ij A ((i - 1) mod mat_m A + 1) ((i - 1) div mat_m A + 1)
             \<and> Matrix_set_i A i val = Matrix_set_ij A ((i - 1) mod mat_m A + 1) ((i - 1) div mat_m A + 1) val
             \<and> unat ((i - 1) mod mat_m A + 1) = (unat i - 1) mod unat (mat_m A) + 1
             \<and> unat ((i - 1) div mat_m A + 1) = (unat i - 1) div unat (mat_m A) + 1
          else Matrix_get_i A i = Inl OutOfRange \<and> Matrix_set_i A i val = Inl OutOfRange)"
proof (cases "1 \<le> unat i \<and> unat i \<le> unat (mat_m A) * unat (mat_n A)")
  case True
  then have c: "unat (i - 1) div unat (mat_m A) < unat (mat_n A)"
    using linear_index_in_range [OF assms(2) assms(4), of i] by blast
  have r: "unat (i - 1) mod unat (mat_m A) < unat (mat_m A)"
    using assms(2) by (simp add: unat_gt_0)
  from True have "i \<noteq> 0" by auto
  then have p: "unat (i - 1) = unat i - 1" by (simp add: unat_pred_u32)
  show ?thesis
    using True c r p linear_row_col [OF assms(2) c]
    by (simp add: get_i_wf [OF assms(1,2)] set_i_wf [OF assms(1,2)]
        get_ij_wf [OF assms(1)] set_ij_wf [OF assms(1)] unat_mod_distrib unat_div_distrib)
next
  case False
  then have c: "\<not> unat (i - 1) div unat (mat_m A) < unat (mat_n A)"
    using linear_index_in_range [OF assms(2) assms(4), of i] by blast
  show ?thesis
    using False c by (simp add: get_i_wf [OF assms(1,2)] set_i_wf [OF assms(1,2)])
qed

section \<open>Claims on element access, det2 and the start point\<close>

lemma u32_less_2: "(k :: u32) < 2 \<longleftrightarrow> k = 0 \<or> k = 1"
  by (auto simp: word_less_nat_alt word_unat_eq_iff)

lemma wf_Matrix_fill: "wf_Matrix (Matrix_fill r c val)"
  by (simp add: wf_Matrix_def Matrix_fill_def list_all_length)

lemma u32_not_2_le_1: "\<not> (2 :: u32) \<le> 1"
  by (simp add: word_le_nat_alt)

lemma u32_ge_2: "(2 :: u32) \<le> k \<longleftrightarrow> 2 \<le> unat k"
  by (simp add: word_le_nat_alt)

text \<open>
  Claim C6. \<^verbatim>\<open>det2()\<close> throws \<^verbatim>\<open>std::invalid_argument\<close> exactly when \<open>m \<noteq> 2\<close> and
  \<open>n \<noteq> 2\<close>. When \<open>m = 2\<close> or \<open>n = 2\<close> and both dimensions are at least 2 it returns
  \<^verbatim>\<open>get(1,1) * get(2,2) - get(1,2) * get(2,1)\<close>; when \<open>m = 2\<close> or \<open>n = 2\<close> and a dimension is
  below 2 it throws \<^verbatim>\<open>std::out_of_range\<close>.
\<close>

theorem det2_guard_and_value:
  assumes "wf_Matrix A"
  shows "(Matrix_det2 A = Inl (InvalidArgument ''Can't apply det2 to a non 2x2 matrix'')
            \<longleftrightarrow> mat_m A \<noteq> 2 \<and> mat_n A \<noteq> 2)
       \<and> ((mat_m A = 2 \<or> mat_n A = 2) \<and> 2 \<le> mat_m A \<and> 2 \<le> mat_n A \<longrightarrow>
            (\<exists>a11 a22 a12 a21.
               Matrix_get_ij A 1 1 = Inr a11 \<and> Matrix_get_ij A 2 2 = Inr a22 \<and>
               Matrix_get_ij A 1 2 = Inr a12 \<and> Matrix_get_ij A 2 1 = Inr a21 \<and>
               Matrix_det2 A = Inr (a11 * a22 - a12 * a21)))
       \<and> ((mat_m A = 2 \<or> mat_n A = 2) \<and> (mat_m A < 2 \<or> mat_n A < 2) \<longrightarrow>
            Matrix_det2 A = Inl OutOfRange)"
proof (intro conjI impI)
  show "Matrix_det2 A = Inl (InvalidArgument ''Can't apply det2 to a non 2x2 matrix'')
            \<longleftrightarrow> mat_m A \<noteq> 2 \<and> mat_n A \<noteq> 2"
    by (simp add: Matrix_det2_def get_ij_wf [OF assms])
next
  assume h: "(mat_m A = 2 \<or> mat_n A = 2) \<and> 2 \<le> mat_m A \<and> 2 \<le> mat_n A"
  then have "2 \<le> unat (mat_m A)" "2 \<le> unat (mat_n A)" by (simp_all add: u32_ge_2)
  with h show "\<exists>a11 a22 a12 a21.
               Matrix_get_ij A 1 1 = Inr a11 \<and> Matrix_get_ij A 2 2 = Inr a22 \<and>
               Matrix_get_ij A 1 2 = Inr a12 \<and> Matrix_get_ij A 2 1 = Inr a21 \<and>
               Matrix_det2 A = Inr (a11 * a22 - a12 * a21)"
    by (auto simp: Matrix_det2_def get_ij_wf [OF assms])
next
  assume h: "(mat_m A = 2 \<or> mat_n A = 2) \<and> (mat_m A < 2 \<or> mat_n A < 2)"
  then show "Matrix_det2 A = Inl OutOfRange"
    by (auto simp: Matrix_det2_def get_ij_wf [OF assms] u32_less_2)
qed

text \<open>
  Claim C6 on \<open>[[1,2],[3,4]]\<close> (the determinant is \<open>-2\<close>), on a 2x1 matrix (out of
  range) and on a 3x3 matrix (the guard).
\<close>

theorem det2_witness:
  "wf_Matrix \<lparr>mat_m = 2, mat_n = 2, mat_v = [[1, 2], [3, 4 :: real]]\<rparr>
   \<and> Matrix_det2 \<lparr>mat_m = 2, mat_n = 2, mat_v = [[1, 2], [3, 4 :: real]]\<rparr> = Inr (- 2)
   \<and> wf_Matrix (Matrix_fill 2 1 (5 :: real)) \<and> Matrix_det2 (Matrix_fill 2 1 (5 :: real)) = Inl OutOfRange
   \<and> wf_Matrix (Matrix_fill 3 3 (5 :: real))
   \<and> Matrix_det2 (Matrix_fill 3 3 (5 :: real)) = Inl (InvalidArgument ''Can't apply det2 to a non 2x2 matrix'')"
proof -
  let ?A = "\<lparr>mat_m = 2, mat_n = 2, mat_v = [[1, 2], [3, 4 :: real]]\<rparr>"
  have w1: "wf_Matrix ?A" by (simp add: wf_Matrix_def)
  have w2: "wf_Matrix (Matrix_fill 2 1 (5 :: real))" by (rule wf_Matrix_fill)
  have w3: "wf_Matrix (Matrix_fill 3 3 (5 :: real))" by (rule wf_Matrix_fill)
  have g: "Matrix_get_ij ?A 1 1 = Inr 1" "Matrix_get_ij ?A 2 2 = Inr 4"
          "Matrix_get_ij ?A 1 2 = Inr 2" "Matrix_get_ij ?A 2 1 = Inr 3"
    by (simp_all add: Matrix_get_ij_def vector_at_def)
  have "Matrix_det2 ?A = Inr (- 2)"
    using det2_guard_and_value [OF w1] g by auto
  moreover have "Matrix_det2 (Matrix_fill 2 1 (5 :: real)) = Inl OutOfRange"
    using det2_guard_and_value [OF w2] by (simp add: Matrix_fill_def)
  moreover have "Matrix_det2 (Matrix_fill 3 3 (5 :: real)) = Inl (InvalidArgument ''Can't apply det2 to a non 2x2 matrix'')"
    using det2_guard_and_value [OF w3] by (simp add: Matrix_fill_def)
  ultimately show ?thesis using w1 w2 w3 by simp
qed

text \<open>
  Claim C10. For every start point that is not a 2x1 matrix \<^verbatim>\<open>gradient_method\<close> throws
  \<^verbatim>\<open>std::invalid_argument("Not a 2x1 column vector")\<close>, whatever \<open>f\<close>, \<open>gradf\<close> and
  \<open>epsilon\<close> are: the output before the loop calls \<^verbatim>\<open>x0.x1()\<close>.
\<close>

theorem gradient_method_rejects_non_2x1:
  "\<not> (mat_m x0 = 2 \<and> mat_n x0 = 1) \<Longrightarrow>
   gradient_method fp f gradf x0 epsilon = Some (Inl (InvalidArgument ''Not a 2x1 column vector''))"
  by (auto simp add: gradient_method_def Matrix_x1_def)

lemma mod_1x1: "Matrix_mod real_fp (Matrix_fill 1 1 c) = Some (Inr (sqrt (c * c)))"
  by (simp add: real_fp_def Matrix_mod_def Matrix_length_def Matrix_fill_def for_loop.simps Matrix_get_i_def vector_at_def u32_not_2_le_1)

text \<open>
  Claim C10 on a 1x1 start point at which the stopping test holds at once: the call
  throws all the same.
\<close>

theorem gradient_method_rejects_non_2x1_witness:
  "\<not> (mat_m (Matrix_fill 1 1 (0 :: real)) = 2 \<and> mat_n (Matrix_fill 1 1 (0 :: real)) = 1)
   \<and> gradient_stop real_fp (\<lambda>x. Inr (Matrix_fill 1 1 0)) 1 (Matrix_fill 1 1 0) = Some (Inr True)
   \<and> gradient_method real_fp (\<lambda>x. Inr 0) (\<lambda>x. Inr (Matrix_fill 1 1 0)) (Matrix_fill 1 1 0) 1
       = Some (Inl (InvalidArgument ''Not a 2x1 column vector''))"
  using gradient_method_rejects_non_2x1 [of "Matrix_fill 1 1 (0 :: real)" real_fp "\<lambda>x. Inr 0"
      "\<lambda>x. Inr (Matrix_fill 1 1 0)" 1]
  by (simp add: gradient_stop_def mod_1x1) (simp add: Matrix_fill_def)

text \<open>
  Claim C4 as stated (no bound on \<open>m * n\<close>) fails on the 65536x65536 matrix: the index
  \<open>i = 0\<close> lies outside \<open>[1, m * n]\<close>, but \<open>i - 1\<close> wraps to \<open>2^32 - 1\<close>, which is
  row 65535 and column 65535 counted from 0, the last element. \<^verbatim>\<open>get(0)\<close> returns it and
  \<^verbatim>\<open>set(0, v)\<close> does not throw.
\<close>

theorem linear_access_counterexample:
  "wf_Matrix (Matrix_fill 65536 65536 (7 :: real))
   \<and> mat_m (Matrix_fill 65536 65536 (7 :: real)) \<noteq> 0 \<and> mat_n (Matrix_fill 65536 65536 (7 :: real)) \<noteq> 0
   \<and> \<not> 1 \<le> unat (0 :: u32)
   \<and> Matrix_get_i (Matrix_fill 65536 65536 (7 :: real)) 0 = Inr 7
   \<and> Matrix_set_i (Matrix_fill 65536 65536 (7 :: real)) 0 8 \<noteq> Inl OutOfRange"
  by (simp add: wf_Matrix_def Matrix_fill_def list_all_length Matrix_get_i_def Matrix_set_i_def vector_at_def unat_max_u32)

text \<open>
  Claim C4 on the 2x3 matrix filled with 5: index 4 is row 2, column 2; indices 7 and 0
  are out of range.
\<close>

theorem linear_access_column_major_witness:
  "wf_Matrix (Matrix_fill 2 3 (5 :: real)) \<and> mat_m (Matrix_fill 2 3 (5 :: real)) \<noteq> 0 \<and> mat_n (Matrix_fill 2 3 (5 :: real)) \<noteq> 0
   \<and> unat (mat_m (Matrix_fill 2 3 (5 :: real))) * unat (mat_n (Matrix_fill 2 3 (5 :: real))) < 2 ^ 32
   \<and> Matrix_get_i (Matrix_fill 2 3 (5 :: real)) 4 = Matrix_get_ij (Matrix_fill 2 3 (5 :: real)) 2 2
   \<and> Matrix_set_i (Matrix_fill 2 3 (5 :: real)) 4 9 = Matrix_set_ij (Matrix_fill 2 3 (5 :: real)) 2 2 9
   \<and> Matrix_get_i (Matrix_fill 2 3 (5 :: real)) 7 = Inl OutOfRange
   \<and> Matrix_get_i (Matrix_fill 2 3 (5 :: real)) 0 = Inl OutOfRange"
proof -
  let ?A = "Matrix_fill 2 3 (5 :: real)"
  have w: "wf_Matrix ?A" by (simp add: wf_Matrix_def Matrix_fill_def list_all_length)
  have m: "mat_m ?A \<noteq> 0" and n: "mat_n ?A \<noteq> 0"
    and b: "unat (mat_m ?A) * unat (mat_n ?A) < 2 ^ 32"
    by (simp_all add: Matrix_fill_def)
  have d: "mat_m ?A = 2" "mat_n ?A = 3" by (simp_all add: Matrix_fill_def)
  show ?thesis
    using linear_access_column_major [OF w m n b, of 4 9]
      linear_access_column_major [OF w m n b, of 7 9]
      linear_access_column_major [OF w m n b, of 0 9] w m n b
    by (simp add: d)
qed

section \<open>Loops\<close>

lemma unat_Suc_u32: "unat (i :: u32) < 4294967295 \<Longrightarrow> unat (i + 1) = Suc (unat i)"
  by (simp add: unat_add_lem [THEN iffD1])

lemma for_loop_upto:
  assumes "unat hi < 4294967295"
  shows "for_loop body hi i s = for_list body [unat i ..< Suc (unat hi)] s"
proof (induction "Suc (unat hi) - unat i" arbitrary: i s)
  case 0
  then have "\<not> i \<le> hi" by (simp add: word_le_nat_alt)
  moreover from 0 have "[unat i ..< Suc (unat hi)] = []" by simp
  ultimately show ?case by (simp add: for_loop.simps)
next
  case (Suc d)
  then have le: "unat i \<le> unat hi" by simp
  then have ile: "i \<le> hi" by (simp add: word_le_nat_alt)
  have nx: "unat (i + 1) = Suc (unat i)" using le assms by (simp add: unat_Suc_u32)
  have d: "d = Suc (unat hi) - unat (i + 1)" using Suc.hyps(2) nx by simp
  have l: "[unat i ..< Suc (unat hi)] = unat i # [unat (i + 1) ..< Suc (unat hi)]"
    using le nx by (simp add: upt_conv_Cons)
  show ?case
    apply (subst for_loop.simps)
    apply (simp only: l for_list.simps ile if_True)
    apply (simp add: Suc.hyps(1) [OF d] split: option.split sum.split)
    done
qed

lemma writes_refl: "wf_Matrix a \<Longrightarrow> writes {} Y a a"
  by (simp add: writes_def)

lemma writes_trans: "writes S Y a a' \<Longrightarrow> writes T Y a' a'' \<Longrightarrow> writes (S \<union> T) Y a a''"
  by (auto simp: writes_def)

lemma writes_wf: "writes S Y a a' \<Longrightarrow> wf_Matrix a'"
  by (simp add: writes_def)

lemma writes_set_ij:
  assumes "wf_Matrix a" "unat (i - 1) < unat (mat_m a)" "unat (j - 1) < unat (mat_n a)"
  shows "\<exists>a'. Matrix_set_ij a i j (Y (unat (i - 1)) (unat (j - 1))) = Inr a'
           \<and> writes {(unat (i - 1), unat (j - 1))} Y a a'"
  using assms
  by (auto simp: set_ij_wf writes_def wf_Matrix_def list_all_length nth_list_update)

lemma for_list_writes:
  assumes "\<And>k a. k \<in> set ks \<Longrightarrow> wf_Matrix a \<Longrightarrow> mat_m a = m \<Longrightarrow> mat_n a = n \<Longrightarrow>
             \<exists>a'. body (of_nat k) a = Some (Inr a') \<and> writes (S k) Y a a'"
    and "wf_Matrix a" "mat_m a = m" "mat_n a = n"
  shows "\<exists>a'. for_list body ks a = Some (Inr a') \<and> writes (\<Union>k\<in>set ks. S k) Y a a'"
  using assms
proof (induction ks arbitrary: a)
  case Nil
  then show ?case by (simp add: writes_refl)
next
  case (Cons k ks)
  from Cons.prems(1) [of k a] Cons.prems(2-4)
  obtain a1 where b: "body (of_nat k) a = Some (Inr a1)" and w1: "writes (S k) Y a a1"
    by auto
  from w1 Cons.prems have a1: "wf_Matrix a1" "mat_m a1 = m" "mat_n a1 = n"
    by (simp_all add: writes_def)
  from Cons.IH [OF _ a1] Cons.prems(1)
  obtain a2 where r: "for_list body ks a1 = Some (Inr a2)"
    and w2: "writes (\<Union>k\<in>set ks. S k) Y a1 a2"
    by auto
  have "writes (S k \<union> (\<Union>k\<in>set ks. S k)) Y a a2" using w1 w2 by (rule writes_trans)
  then show ?case using b r by simp
qed

section \<open>Nested loops that write every cell\<close>

lemma unat_of_nat_u32: "k < 4294967296 \<Longrightarrow> unat (of_nat k :: u32) = k"
  by (simp add: unat_of_nat)

lemma unat_of_nat_pred_u32: "1 \<le> k \<Longrightarrow> k < 4294967296 \<Longrightarrow> unat (of_nat k - 1 :: u32) = k - 1"
  by (simp add: unat_pred_u32 unat_of_nat_u32 word_unat_eq_iff)

lemma cell_loops:
  fixes hi_i hi_j :: u32 and a :: "'d Matrix"
    and body :: "u32 \<Rightarrow> u32 \<Rightarrow> 'd Matrix \<Rightarrow> (error + 'd Matrix) option"
  assumes wf: "wf_Matrix a"
    and bi: "unat hi_i < 4294967295" and bj: "unat hi_j < 4294967295"
    and cell: "\<And>i j. 1 \<le> i \<Longrightarrow> i \<le> unat hi_i \<Longrightarrow> 1 \<le> j \<Longrightarrow> j \<le> unat hi_j \<Longrightarrow>
        (\<forall>b. body (of_nat i) (of_nat j) b =
           Some (Matrix_set_ij b (r (of_nat i) (of_nat j)) (c (of_nat i) (of_nat j)) (Y (rp i j) (cp i j)))) \<and>
        unat (r (of_nat i) (of_nat j) - 1 :: u32) = rp i j \<and> rp i j < unat (mat_m a) \<and>
        unat (c (of_nat i) (of_nat j) - 1 :: u32) = cp i j \<and> cp i j < unat (mat_n a)"
  shows "\<exists>a'. for_loop (\<lambda>i a. for_loop (\<lambda>j a. body i j a) hi_j 1 a) hi_i 1 a = Some (Inr a')
          \<and> writes (\<Union>i\<in>{1..unat hi_i}. \<Union>j\<in>{1..unat hi_j}. {(rp i j, cp i j)}) Y a a'"
proof -
  let ?inner = "\<lambda>i j a. body i j a"
  have inner: "\<exists>a'. for_list (?inner (of_nat i)) [1 ..< Suc (unat hi_j)] b = Some (Inr a')
                 \<and> writes (\<Union>j\<in>set [1 ..< Suc (unat hi_j)]. {(rp i j, cp i j)}) Y b a'"
    if i: "1 \<le> i" "i \<le> unat hi_i" and b: "wf_Matrix b" "mat_m b = mat_m a" "mat_n b = mat_n a"
    for i b
  proof (rule for_list_writes [where m = "mat_m a" and n = "mat_n a"])
    fix j and b' :: "'d Matrix"
    assume j: "j \<in> set [1 ..< Suc (unat hi_j)]" and b': "wf_Matrix b'" "mat_m b' = mat_m a" "mat_n b' = mat_n a"
    then have j': "1 \<le> j" "j \<le> unat hi_j" by auto
    note c = cell [OF i j']
    from writes_set_ij [of b' "r (of_nat i) (of_nat j)" "c (of_nat i) (of_nat j)" Y] b' c
    show "\<exists>a'. ?inner (of_nat i) (of_nat j) b' = Some (Inr a') \<and> writes {(rp i j, cp i j)} Y b' a'"
      by simp
  qed (use b in simp_all)
  have outer: "\<exists>a'. for_list (\<lambda>i a. for_loop (?inner i) hi_j 1 a) [1 ..< Suc (unat hi_i)] a = Some (Inr a')
      \<and> writes (\<Union>i\<in>set [1 ..< Suc (unat hi_i)]. \<Union>j\<in>set [1 ..< Suc (unat hi_j)]. {(rp i j, cp i j)}) Y a a'"
  proof (rule for_list_writes [where m = "mat_m a" and n = "mat_n a"])
    fix i and b :: "'d Matrix"
    assume i: "i \<in> set [1 ..< Suc (unat hi_i)]" and b: "wf_Matrix b" "mat_m b = mat_m a" "mat_n b = mat_n a"
    then have i': "1 \<le> i" "i \<le> unat hi_i" by auto
    show "\<exists>a'. for_loop (?inner (of_nat i)) hi_j 1 b = Some (Inr a')
       \<and> writes (\<Union>j\<in>set [1 ..< Suc (unat hi_j)]. {(rp i j, cp i j)}) Y b a'"
      using inner [OF i' b] by (simp add: for_loop_upto [OF bj])
  qed (use wf in simp_all)
  have s: "set [1 ..< Suc (unat hi_i)] = {1..unat hi_i}" "set [1 ..< Suc (unat hi_j)] = {1..unat hi_j}"
    by auto
  show ?thesis using outer unfolding s by (simp add: for_loop_upto [OF bi])
qed

lemma writes_all:
  assumes "writes S Y a a'" and "{0..<unat (mat_m a)} \<times> {0..<unat (mat_n a)} \<subseteq> S"
  shows "a' = \<lparr>mat_m = mat_m a, mat_n = mat_n a,
               mat_v = map (\<lambda>p. map (Y p) [0..<unat (mat_n a)]) [0..<unat (mat_m a)]\<rparr>"
proof -
  have v: "mat_v a' = map (\<lambda>p. map (Y p) [0..<unat (mat_n a)]) [0..<unat (mat_m a)]"
  proof (rule nth_equalityI)
    show "length (mat_v a') = length (map (\<lambda>p. map (Y p) [0..<unat (mat_n a)]) [0..<unat (mat_m a)])"
      using assms(1) by (simp add: writes_def wf_Matrix_def)
  next
    fix p assume "p < length (mat_v a')"
    then have p: "p < unat (mat_m a)" using assms(1) by (simp add: writes_def wf_Matrix_def)
    have l: "length (mat_v a' ! p) = unat (mat_n a)"
      using assms(1) p by (simp add: writes_def wf_Matrix_def list_all_length)
    have "mat_v a' ! p = map (Y p) [0..<unat (mat_n a)]"
    proof (rule nth_equalityI)
      show "length (mat_v a' ! p) = length (map (Y p) [0..<unat (mat_n a)])" using l by simp
    next
      fix q assume "q < length (mat_v a' ! p)"
      then have q: "q < unat (mat_n a)" using l by simp
      then have "(p, q) \<in> S" using assms(2) p by auto
      then show "mat_v a' ! p ! q = map (Y p) [0..<unat (mat_n a)] ! q"
        using assms(1) p q by (simp add: writes_def)
    qed
    then show "mat_v a' ! p = map (\<lambda>p. map (Y p) [0..<unat (mat_n a)]) [0..<unat (mat_m a)] ! p"
      using p by simp
  qed
  have "mat_m a' = mat_m a" "mat_n a' = mat_n a" using assms(1) by (simp_all add: writes_def)
  then show ?thesis using v by (cases a') simp
qed

lemma upto_cells: "(\<Union>i\<in>{1..M::nat}. \<Union>j\<in>{1..N::nat}. {(i - 1, j - 1)}) = {0..<M} \<times> {0..<N}" (is "?L = ?R")
proof
  show "?L \<subseteq> ?R" by auto
  show "?R \<subseteq> ?L"
  proof
    fix x assume "x \<in> ?R"
    then obtain p q where x: "x = (p, q)" "p < M" "q < N" by auto
    then have "Suc p \<in> {1..M}" "Suc q \<in> {1..N}" "x = (Suc p - 1, Suc q - 1)" by auto
    then show "x \<in> ?L" by blast
  qed
qed

lemma upto_cells_swap: "(\<Union>i\<in>{1..M::nat}. \<Union>j\<in>{1..N::nat}. {(j - 1, i - 1)}) = {0..<N} \<times> {0..<M}" (is "?L = ?R")
proof
  show "?L \<subseteq> ?R" by auto
  show "?R \<subseteq> ?L"
  proof
    fix x assume "x \<in> ?R"
    then obtain p q where x: "x = (p, q)" "p < N" "q < M" by auto
    then have "Suc q \<in> {1..M}" "Suc p \<in> {1..N}" "x = (Suc p - 1, Suc q - 1)" by auto
    then show "x \<in> ?L" by blast
  qed
qed

lemma get_ij_of_nat:
  assumes "wf_Matrix A" "1 \<le> i" "i \<le> unat (mat_m A)" "1 \<le> j" "j \<le> unat (mat_n A)"
  shows "Matrix_get_ij A (of_nat i) (of_nat j) = Inr (mat_v A ! (i - 1) ! (j - 1))"
proof -
  have "i < 4294967296" "j < 4294967296"
    using assms unat_u32_less [of "mat_m A"] unat_u32_less [of "mat_n A"] by simp_all
  moreover have "i - 1 < unat (mat_m A)" "j - 1 < unat (mat_n A)" using assms by arith+
  ultimately show ?thesis using assms by (simp add: get_ij_wf unat_of_nat_pred_u32)
qed

lemma map_map_nth:
  assumes "length vs = M" "\<And>p. p < M \<Longrightarrow> length (vs ! p) = N"
  shows "map (\<lambda>p. map (\<lambda>q. h (vs ! p ! q)) [0..<N]) [0..<M] = map (map h) vs"
  using assms by (auto intro!: nth_equalityI)

lemma elementwise_loops_gen:
  assumes bm: "unat m < 4294967295" and bn: "unat n < 4294967295"
    and body: "\<And>i j b. 1 \<le> i \<Longrightarrow> i \<le> unat m \<Longrightarrow> 1 \<le> j \<Longrightarrow> j \<le> unat n \<Longrightarrow>
        body (of_nat i) (of_nat j) b = Some (Matrix_set_ij b (of_nat i) (of_nat j) (Y (i - 1) (j - 1)))"
  shows "for_loop (\<lambda>i a. for_loop (\<lambda>j a. body i j a) n 1 a) m 1 (Matrix_fill m n 0)
         = Some (Inr \<lparr>mat_m = m, mat_n = n, mat_v = map (\<lambda>p. map (Y p) [0..<unat n]) [0..<unat m]\<rparr>)"
proof -
  let ?a = "Matrix_fill m n 0"
  have d: "mat_m ?a = m" "mat_n ?a = n" by (simp_all add: Matrix_fill_def)
  have "\<exists>a'. for_loop (\<lambda>i a. for_loop (\<lambda>j a. body i j a) n 1 a) m 1 ?a = Some (Inr a')
          \<and> writes (\<Union>i\<in>{1..unat m}. \<Union>j\<in>{1..unat n}. {(i - 1, j - 1)}) Y ?a a'"
  proof (rule cell_loops [where r = "\<lambda>i j. i" and c = "\<lambda>i j. j"])
    fix i j assume ij: "1 \<le> i" "i \<le> unat m" "1 \<le> j" "j \<le> unat n"
    then have lt: "i < 4294967296" "j < 4294967296" using bm bn by simp_all
    have lt': "i - 1 < unat m" "j - 1 < unat n" using ij by arith+
    show "(\<forall>b. body (of_nat i) (of_nat j) b =
              Some (Matrix_set_ij b (of_nat i) (of_nat j) (Y (i - 1) (j - 1)))) \<and>
          unat (of_nat i - 1 :: u32) = i - 1 \<and> i - 1 < unat (mat_m ?a) \<and>
          unat (of_nat j - 1 :: u32) = j - 1 \<and> j - 1 < unat (mat_n ?a)"
      using ij lt lt' body [OF ij] by (simp add: d unat_of_nat_pred_u32)
  qed (simp_all add: wf_Matrix_fill bm bn)
  then obtain a' where r: "for_loop (\<lambda>i a. for_loop (\<lambda>j a. body i j a) n 1 a) m 1 ?a = Some (Inr a')"
    and w: "writes ({0..<unat m} \<times> {0..<unat n}) Y ?a a'"
    unfolding upto_cells by blast
  have "a' = \<lparr>mat_m = m, mat_n = n, mat_v = map (\<lambda>p. map (Y p) [0..<unat n]) [0..<unat m]\<rparr>"
    using writes_all [OF w] by (simp add: d)
  then show ?thesis using r by simp
qed

lemma elementwise_loops:
  assumes wf: "wf_Matrix A"
    and bm: "unat (mat_m A) < 4294967295" and bn: "unat (mat_n A) < 4294967295"
    and body: "\<And>i j x b. Matrix_get_ij A i j = Inr x \<Longrightarrow> body i j b = Some (Matrix_set_ij b i j (h x))"
  shows "for_loop (\<lambda>i a. for_loop (\<lambda>j a. body i j a) (mat_n A) 1 a) (mat_m A) 1
           (Matrix_fill (mat_m A) (mat_n A) 0)
         = Some (Inr \<lparr>mat_m = mat_m A, mat_n = mat_n A, mat_v = map (map h) (mat_v A)\<rparr>)"
proof -
  have "for_loop (\<lambda>i a. for_loop (\<lambda>j a. body i j a) (mat_n A) 1 a) (mat_m A) 1
           (Matrix_fill (mat_m A) (mat_n A) 0)
        = Some (Inr \<lparr>mat_m = mat_m A, mat_n = mat_n A,
             mat_v = map (\<lambda>p. map (\<lambda>q. h (mat_v A ! p ! q)) [0..<unat (mat_n A)]) [0..<unat (mat_m A)]\<rparr>)"
    by (rule elementwise_loops_gen [OF bm bn]) (simp add: body [OF get_ij_of_nat [OF wf]])
  also have "map (\<lambda>p. map (\<lambda>q. h (mat_v A ! p ! q)) [0..<unat (mat_n A)]) [0..<unat (mat_m A)]
           = map (map h) (mat_v A)"
    by (rule map_map_nth) (simp_all add: wf_rows [OF wf] wf_row_length [OF wf])
  finally show ?thesis .
qed

lemma Matrix_div_scalar_result:
  assumes "wf_Matrix A" "unat (mat_m A) < 4294967295" "unat (mat_n A) < 4294967295"
  shows "Matrix_div_scalar A s =
         Some (Inr \<lparr>mat_m = mat_m A, mat_n = mat_n A, mat_v = map (map (\<lambda>x. s / x)) (mat_v A)\<rparr>)"
  unfolding Matrix_div_scalar_def
  by (rule elementwise_loops [OF assms]) simp

lemma Matrix_times_scalar_result:
  assumes "wf_Matrix A" "unat (mat_m A) < 4294967295" "unat (mat_n A) < 4294967295"
  shows "Matrix_times_scalar A s =
         Some (Inr \<lparr>mat_m = mat_m A, mat_n = mat_n A, mat_v = map (map (\<lambda>x. s * x)) (mat_v A)\<rparr>)"
  unfolding Matrix_times_scalar_def
  by (rule elementwise_loops [OF assms]) simp

section \<open>Transpose\<close>

lemma Matrix_transpose_result:
  assumes wf: "wf_Matrix A"
    and bm: "unat (mat_m A) < 4294967295" and bn: "unat (mat_n A) < 4294967295"
  shows "Matrix_transpose A =
         Some (Inr \<lparr>mat_m = mat_n A, mat_n = mat_m A,
                    mat_v = map (\<lambda>p. map (\<lambda>q. mat_v A ! q ! p) [0..<unat (mat_m A)]) [0..<unat (mat_n A)]\<rparr>)"
proof -
  let ?a = "Matrix_fill (mat_n A) (mat_m A) 0"
  let ?Y = "\<lambda>p q. mat_v A ! q ! p"
  let ?body = "\<lambda>i j w. Some (bind_r (Matrix_get_ij A i j) (\<lambda>x. Matrix_set_ij w j i x))"
  have d: "mat_m ?a = mat_n A" "mat_n ?a = mat_m A" by (simp_all add: Matrix_fill_def)
  have "\<exists>a'. for_loop (\<lambda>i a. for_loop (\<lambda>j a. ?body i j a) (mat_n A) 1 a) (mat_m A) 1 ?a = Some (Inr a')
          \<and> writes (\<Union>i\<in>{1..unat (mat_m A)}. \<Union>j\<in>{1..unat (mat_n A)}. {(j - 1, i - 1)}) ?Y ?a a'"
  proof (rule cell_loops [where r = "\<lambda>i j. j" and c = "\<lambda>i j. i"])
    fix i j assume ij: "1 \<le> i" "i \<le> unat (mat_m A)" "1 \<le> j" "j \<le> unat (mat_n A)"
    then have lt: "i < 4294967296" "j < 4294967296" using bm bn by simp_all
    have lt': "i - 1 < unat (mat_m A)" "j - 1 < unat (mat_n A)" using ij by arith+
    show "(\<forall>b. ?body (of_nat i) (of_nat j) b =
              Some (Matrix_set_ij b (of_nat j) (of_nat i) (?Y (j - 1) (i - 1)))) \<and>
          unat (of_nat j - 1 :: u32) = j - 1 \<and> j - 1 < unat (mat_m ?a) \<and>
          unat (of_nat i - 1 :: u32) = i - 1 \<and> i - 1 < unat (mat_n ?a)"
      using ij lt lt' get_ij_of_nat [OF wf ij] by (simp add: d unat_of_nat_pred_u32)
  qed (simp_all add: wf_Matrix_fill bm bn)
  then obtain a' where r: "for_loop (\<lambda>i a. for_loop (\<lambda>j a. ?body i j a) (mat_n A) 1 a) (mat_m A) 1 ?a = Some (Inr a')"
    and w: "writes ({0..<unat (mat_n A)} \<times> {0..<unat (mat_m A)}) ?Y ?a a'"
    unfolding upto_cells_swap by blast
  have "a' = \<lparr>mat_m = mat_n A, mat_n = mat_m A,
            mat_v = map (\<lambda>p. map (?Y p) [0..<unat (mat_m A)]) [0..<unat (mat_n A)]\<rparr>"
    using writes_all [OF w] by (simp add: d)
  then show ?thesis using r
    by (simp add: Matrix_transpose_def Matrix_getCols_def Matrix_getRows_def)
qed

lemma Matrix_eq_by_rows:
  assumes "wf_Matrix A"
  shows "\<lparr>mat_m = mat_m A, mat_n = mat_n A,
          mat_v = map (\<lambda>p. map (\<lambda>q. mat_v A ! p ! q) [0..<unat (mat_n A)]) [0..<unat (mat_m A)]\<rparr> = A"
proof -
  have "map (\<lambda>p. map (\<lambda>q. id (mat_v A ! p ! q)) [0..<unat (mat_n A)]) [0..<unat (mat_m A)]
        = map (map id) (mat_v A)"
    by (rule map_map_nth) (simp_all add: wf_rows [OF assms] wf_row_length [OF assms])
  then show ?thesis by (cases A) simp
qed

text \<open>
  Claim C8, as it holds on the code. For a matrix with fewer than \<open>2^32 - 1\<close> rows and
  fewer than \<open>2^32 - 1\<close> columns, \<^verbatim>\<open>A.transpose().transpose()\<close> returns \<open>A\<close>: the same
  dimensions and the same elements.
\<close>

theorem transpose_involution:
  assumes wf: "wf_Matrix A"
    and bm: "unat (mat_m A) < 2 ^ 32 - 1" and bn: "unat (mat_n A) < 2 ^ 32 - 1"
  shows "bind_o (Matrix_transpose A) Matrix_transpose = Some (Inr A)"
proof -
  let ?T = "\<lparr>mat_m = mat_n A, mat_n = mat_m A,
             mat_v = map (\<lambda>p. map (\<lambda>q. mat_v A ! q ! p) [0..<unat (mat_m A)]) [0..<unat (mat_n A)]\<rparr>"
  have bm': "unat (mat_m A) < 4294967295" and bn': "unat (mat_n A) < 4294967295"
    using bm bn by simp_all
  have t1: "Matrix_transpose A = Some (Inr ?T)"
    by (rule Matrix_transpose_result [OF wf bm' bn'])
  have wfT: "wf_Matrix ?T" by (simp add: wf_Matrix_def list_all_length)
  have "Matrix_transpose ?T =
        Some (Inr \<lparr>mat_m = mat_m A, mat_n = mat_n A,
          mat_v = map (\<lambda>p. map (\<lambda>q. mat_v ?T ! q ! p) [0..<unat (mat_n A)]) [0..<unat (mat_m A)]\<rparr>)"
    using Matrix_transpose_result [OF wfT] bm' bn' by simp
  also have "map (\<lambda>p. map (\<lambda>q. mat_v ?T ! q ! p) [0..<unat (mat_n A)]) [0..<unat (mat_m A)]
           = map (\<lambda>p. map (\<lambda>q. mat_v A ! p ! q) [0..<unat (mat_n A)]) [0..<unat (mat_m A)]"
    by simp
  finally have "Matrix_transpose ?T = Some (Inr A)"
    by (simp only: Matrix_eq_by_rows [OF wf])
  then show ?thesis by (simp add: t1)
qed

lemma for_loop_wraps:
  assumes step: "\<And>k s. k \<noteq> 0 \<Longrightarrow> I s \<Longrightarrow> \<exists>s'. body k s = Some (Inr s') \<and> I s'"
    and thr: "\<And>s. I s \<Longrightarrow> body 0 s = Some (Inl e)"
  shows "i \<noteq> 0 \<Longrightarrow> I s \<Longrightarrow> for_loop body (- 1) i s = Some (Inl e)"
proof (induction "4294967296 - unat i" arbitrary: i s)
  case 0
  then show ?case using unat_u32_less [of i] by simp
next
  case (Suc d)
  from step [OF Suc.prems] obtain s' where b: "body i s = Some (Inr s')" and I': "I s'" by blast
  show ?case
  proof (cases "i + 1 = 0")
    case True
    have "for_loop body (- 1) (i + 1) s' = Some (Inl e)"
      unfolding True by (subst for_loop.simps) (simp add: thr [OF I'])
    then show ?thesis by (subst for_loop.simps) (simp add: b)
  next
    case False
    then have "i \<noteq> - 1" by auto
    then have "unat i \<noteq> 4294967295" by (metis unat_max_u32 word_unat_eq_iff)
    then have "unat i < 4294967295" using unat_u32_less [of i] by simp
    then have "unat (i + 1) = Suc (unat i)" by (rule unat_Suc_u32)
    then have "d = 4294967296 - unat (i + 1)" using Suc.hyps(2) by simp
    from Suc.hyps(1) [OF this False I']
    show ?thesis by (subst for_loop.simps) (simp add: b)
  qed
qed

section \<open>The Euclidean norm\<close>

lemma for_list_accumulate:
  assumes "\<And>k s. k \<in> set ks \<Longrightarrow> body (of_nat k) s = Some (Inr (h s (g k)))"
  shows "for_list body ks s = Some (Inr (foldl h s (map g ks)))"
  using assms by (induction ks arbitrary: s) simp_all

lemma map_pred_upt: "map (\<lambda>k. g (k - 1)) [1..<Suc L] = map g [0..<L]"
  by (induction L) simp_all

lemma Matrix_mod_result:
  fixes A :: "('d::{zero,plus,times}) Matrix"
  assumes wf: "wf_Matrix A" and b: "unat (mat_m A) * unat (mat_n A) < 4294967295"
  shows "Matrix_mod fp A =
         Some (Inr (fp_sqrt fp (foldl (\<lambda>sum x. sum + x * x) 0
           (map (\<lambda>t. mat_v A ! (t mod unat (mat_m A)) ! (t div unat (mat_m A)))
              [0..<unat (mat_m A) * unat (mat_n A)]))))"
proof -
  let ?M = "unat (mat_m A)" and ?N = "unat (mat_n A)"
  let ?g = "\<lambda>t. mat_v A ! (t mod ?M) ! (t div ?M)"
  let ?h = "\<lambda>sum x. sum + x * x"
  let ?body = "\<lambda>i sum. Some (bind_r (Matrix_get_i A i) (\<lambda>x. bind_r (Matrix_get_i A i) (\<lambda>y. Inr (sum + x * y))))"
  have L: "unat (Matrix_length A) = ?M * ?N"
    using b by (simp add: Matrix_length_def unat_mult_lem [THEN iffD1])
  have bl: "unat (Matrix_length A) < 4294967295" using b L by simp
  have step: "?body (of_nat k) s = Some (Inr (?h s (?g (k - 1))))"
    if k: "k \<in> set [1..<Suc (?M * ?N)]" for k s
  proof -
    from k have k1: "1 \<le> k" "k \<le> ?M * ?N" by auto
    then have klt: "k < 4294967296" using b by simp
    have M0: "?M \<noteq> 0"
    proof
      assume "?M = 0"
      then have "?M * ?N = 0" by simp
      with k1 show False by simp
    qed
    then have m0: "mat_m A \<noteq> 0" by auto
    have "k - 1 < ?N * ?M" using k1 by (simp add: mult.commute)
    then have "(k - 1) div ?M < ?N" using M0 by (simp add: div_less_iff_less_mult)
    then show ?thesis
      using k1 klt by (simp add: get_i_wf [OF wf m0] unat_of_nat_pred_u32)
  qed
  have "for_loop ?body (Matrix_length A) 1 0
        = Some (Inr (foldl ?h 0 (map (\<lambda>k. ?g (k - 1)) [1..<Suc (?M * ?N)])))"
    unfolding for_loop_upto [OF bl] L
    by (simp only: unat_1)
      (rule for_list_accumulate [where g = "\<lambda>k. ?g (k - 1)" and h = ?h and body = ?body], rule step)
  also have "map (\<lambda>k. ?g (k - 1)) [1..<Suc (?M * ?N)] = map ?g [0..<?M * ?N]"
    by (rule map_pred_upt)
  finally show ?thesis by (simp add: Matrix_mod_def)
qed

lemma column_major_sum:
  fixes f :: "nat \<Rightarrow> nat \<Rightarrow> real"
  shows "(\<Sum>t<N * M. f (t mod M) (t div M)) = (\<Sum>p<M. \<Sum>q<N. f p q)"
proof (cases "M = 0")
  case True
  then show ?thesis by simp
next
  case False
  have "(\<Sum>t<N * M. f (t mod M) (t div M))
      = (\<Sum>q<N. \<Sum>t\<in>{q * M..<q * M + M}. f (t mod M) (t div M))"
    by (simp add: sum.nat_group)
  also have "\<dots> = (\<Sum>q<N. \<Sum>p<M. f p q)"
  proof (rule sum.cong [OF refl])
    fix q
    have "(\<Sum>t\<in>{q * M..<q * M + M}. f (t mod M) (t div M))
        = (\<Sum>p\<in>{0..<M}. f ((p + q * M) mod M) ((p + q * M) div M))"
      using sum.shift_bounds_nat_ivl [of "\<lambda>t. f (t mod M) (t div M)" 0 "q * M" M]
      by (simp add: add.commute)
    also have "\<dots> = (\<Sum>p\<in>{0..<M}. f p q)"
      by (rule sum.cong) (use False in simp_all)
    finally show "(\<Sum>t\<in>{q * M..<q * M + M}. f (t mod M) (t div M)) = (\<Sum>p<M. f p q)"
      by (simp add: lessThan_atLeast0)
  qed
  also have "\<dots> = (\<Sum>p<M. \<Sum>q<N. f p q)" by (rule sum.swap)
  finally show ?thesis .
qed

lemma sum_list_rows:
  fixes vs :: "real list list"
  assumes "length vs = M" "\<And>p. p < M \<Longrightarrow> length (vs ! p) = N"
  shows "(\<Sum>p<M. \<Sum>q<N. h (vs ! p ! q)) = sum_list (map h (concat vs))"
proof -
  have "sum_list (map h (concat vs)) = sum_list (map (\<lambda>row. sum_list (map h row)) vs)"
    by (induction vs) simp_all
  also have "\<dots> = (\<Sum>p<M. sum_list (map h (vs ! p)))"
    using assms(1) by (simp add: sum_list_sum_nth lessThan_atLeast0)
  also have "\<dots> = (\<Sum>p<M. \<Sum>q<N. h (vs ! p ! q))"
    by (rule sum.cong) (simp_all add: sum_list_sum_nth lessThan_atLeast0 assms(2))
  finally show ?thesis by simp
qed

lemma column_major_elements:
  fixes vs :: "real list list" and h :: "real \<Rightarrow> real"
  assumes "length vs = M" "\<And>p. p < M \<Longrightarrow> length (vs ! p) = N"
  shows "sum_list (map h (map (\<lambda>t. vs ! (t mod M) ! (t div M)) [0..<M * N])) = sum_list (map h (concat vs))"
proof -
  have "sum_list (map h (map (\<lambda>t. vs ! (t mod M) ! (t div M)) [0..<M * N]))
        = (\<Sum>t<N * M. h (vs ! (t mod M) ! (t div M)))"
    by (simp add: interv_sum_list_conv_sum_set_nat lessThan_atLeast0 mult.commute comp_def)
  also have "\<dots> = (\<Sum>p<M. \<Sum>q<N. h (vs ! p ! q))"
    by (rule column_major_sum)
  also have "\<dots> = sum_list (map h (concat vs))"
    by (rule sum_list_rows) (rule assms)+
  finally show ?thesis .
qed

lemma foldl_sum_squares:
  "foldl (\<lambda>sum x. sum + x * x) a xs = a + sum_list (map (\<lambda>x. x * x) xs)" for a :: real
  by (induction xs arbitrary: a) simp_all

text \<open>
  In exact arithmetic (the instance \<open>real_fp\<close>) the value of \<^verbatim>\<open>mod()\<close> is the Euclidean
  norm: the square root of the sum of the squares of all elements.
\<close>

lemma Matrix_mod_exact:
  fixes A :: "real Matrix"
  assumes wf: "wf_Matrix A" and b: "unat (mat_m A) * unat (mat_n A) < 4294967295"
  shows "Matrix_mod real_fp A = Some (Inr (sqrt (sum_list (map (\<lambda>x. x * x) (concat (mat_v A))))))"
  unfolding Matrix_mod_result [OF wf b] foldl_sum_squares
  by (simp only: column_major_elements [OF wf_rows [OF wf] wf_row_length [OF wf]])
    (simp add: real_fp_def)

text \<open>
  Claim C9, as it holds on the code. For a matrix whose element count \<open>m * n\<close> is below
  \<open>2^32 - 1\<close> (vector or not), \<^verbatim>\<open>mod()\<close> returns \<^verbatim>\<open>sqrt\<close> of the sum of the squares of all
  its elements, where the sum is accumulated from \<^verbatim>\<open>0.0\<close> over the elements in the order
  of the linear index (column-major) and every operation is that of \<^verbatim>\<open>double\<close>. The
  sum is rounded at every step and can overflow or underflow; in exact arithmetic the
  result is the Euclidean norm (lemma \<open>Matrix_mod_exact\<close>).
\<close>

theorem mod_is_euclidean_norm:
  fixes A :: "('d::{zero,plus,times}) Matrix"
  assumes wf: "wf_Matrix A" and b: "unat (mat_m A) * unat (mat_n A) < 2 ^ 32 - 1"
  shows "Matrix_mod fp A =
         Some (Inr (fp_sqrt fp (foldl (\<lambda>sum x. sum + x * x) 0
           (map (\<lambda>t. mat_v A ! (t mod unat (mat_m A)) ! (t div unat (mat_m A)))
              [0..<unat (mat_m A) * unat (mat_n A)]))))"
  using b by (intro Matrix_mod_result [OF wf]) simp

text \<open>
  Claim C9 as stated (every matrix with \<open>m, n \<ge> 1\<close>) fails on the 65536x65536 matrix
  filled with 1: \<^verbatim>\<open>length()\<close> is \<open>65536 * 65536 = 0\<close> in \<^verbatim>\<open>unsigned\<close>, the loop of
  \<^verbatim>\<open>mod()\<close> does not run and the result is \<^verbatim>\<open>sqrt(0.0)\<close>, which is 0 and not the norm 65536.
\<close>

theorem mod_counterexample:
  "wf_Matrix (Matrix_fill 65536 65536 (1 :: real))
   \<and> mat_m (Matrix_fill 65536 65536 (1 :: real)) \<noteq> 0 \<and> mat_n (Matrix_fill 65536 65536 (1 :: real)) \<noteq> 0
   \<and> Matrix_get_ij (Matrix_fill 65536 65536 (1 :: real)) 1 1 = Inr 1
   \<and> Matrix_mod real_fp (Matrix_fill 65536 65536 1) = Some (Inr 0)"
proof -
  have "Matrix_length (Matrix_fill 65536 65536 (1 :: real)) = 0"
    by (simp add: Matrix_length_def Matrix_fill_def)
  then have "Matrix_mod real_fp (Matrix_fill 65536 65536 1) = Some (Inr 0)"
    by (simp add: Matrix_mod_def for_loop.simps real_fp_def)
  then show ?thesis
    by (simp add: wf_Matrix_fill) (simp add: Matrix_fill_def Matrix_get_ij_def vector_at_def)
qed

text \<open>
  Claim C9 on the column vector \<open>[3, 4]\<close>, in exact arithmetic: \<^verbatim>\<open>mod()\<close> returns 5.
\<close>

theorem mod_is_euclidean_norm_witness:
  "wf_Matrix \<lparr>mat_m = 2, mat_n = 1, mat_v = [[3], [4 :: real]]\<rparr>
   \<and> unat (mat_m \<lparr>mat_m = 2, mat_n = 1, mat_v = [[3], [4 :: real]]\<rparr>)
       * unat (mat_n \<lparr>mat_m = 2, mat_n = 1, mat_v = [[3], [4 :: real]]\<rparr>) < 2 ^ 32 - 1
   \<and> Matrix_vector [3, 4 :: real] = Some \<lparr>mat_m = 2, mat_n = 1, mat_v = [[3], [4]]\<rparr>
   \<and> Matrix_mod real_fp \<lparr>mat_m = 2, mat_n = 1, mat_v = [[3], [4]]\<rparr> = Some (Inr 5)"
proof -
  let ?A = "\<lparr>mat_m = 2, mat_n = 1, mat_v = [[3], [4 :: real]]\<rparr>"
  have w: "wf_Matrix ?A" by (simp add: wf_Matrix_def)
  have b: "unat (mat_m ?A) * unat (mat_n ?A) < 2 ^ 32 - 1" by simp
  have u: "[0..<2] = [0, 1]" by (simp add: upt_rec)
  have "Matrix_mod real_fp ?A = Some (Inr 5)"
    using mod_is_euclidean_norm [OF w b, of real_fp] by (simp add: u real_fp_def)
  then show ?thesis using w by (simp add: Matrix_vector_def)
qed

section \<open>Scalar division and transpose: claims\<close>

lemma wf_map_map: "wf_Matrix A \<Longrightarrow> wf_Matrix \<lparr>mat_m = mat_m A, mat_n = mat_n A, mat_v = map (map h) (mat_v A)\<rparr>"
  by (simp add: wf_Matrix_def list_all_length)

text \<open>
  Claim C5, as it holds on the code. For a matrix with fewer than \<open>2^32 - 1\<close> rows and
  fewer than \<open>2^32 - 1\<close> columns, \<open>A / s\<close> is the matrix of the same shape in which every
  element \<open>x\<close> is replaced by \<open>s / x\<close>: the scalar divided by the element, in the
  division of \<^verbatim>\<open>double\<close> (at a zero element this is an infinity or a NaN, nothing is
  thrown).
\<close>

theorem div_scalar_divides_scalar_by_element:
  assumes wf: "wf_Matrix A"
    and bm: "unat (mat_m A) < 2 ^ 32 - 1" and bn: "unat (mat_n A) < 2 ^ 32 - 1"
  shows "\<exists>R. Matrix_div_scalar A s = Some (Inr R)
           \<and> R = \<lparr>mat_m = mat_m A, mat_n = mat_n A, mat_v = map (map (\<lambda>x. s / x)) (mat_v A)\<rparr>
           \<and> wf_Matrix R
           \<and> (\<forall>i j. 1 \<le> unat i \<and> unat i \<le> unat (mat_m A) \<and> 1 \<le> unat j \<and> unat j \<le> unat (mat_n A) \<longrightarrow>
                 (\<exists>x. Matrix_get_ij A i j = Inr x \<and> Matrix_get_ij R i j = Inr (s / x)))"
proof -
  let ?R = "\<lparr>mat_m = mat_m A, mat_n = mat_n A, mat_v = map (map (\<lambda>x. s / x)) (mat_v A)\<rparr>"
  have r: "Matrix_div_scalar A s = Some (Inr ?R)"
    using Matrix_div_scalar_result [OF wf] bm bn by simp
  have wR: "wf_Matrix ?R" by (rule wf_map_map [OF wf])
  have "\<exists>x. Matrix_get_ij A i j = Inr x \<and> Matrix_get_ij ?R i j = Inr (s / x)"
    if "1 \<le> unat i \<and> unat i \<le> unat (mat_m A) \<and> 1 \<le> unat j \<and> unat j \<le> unat (mat_n A)" for i j
  proof -
    from that have nz: "i \<noteq> 0" "j \<noteq> 0" by auto
    with that have lt: "unat (i - 1) < unat (mat_m A)" "unat (j - 1) < unat (mat_n A)"
      by (auto simp: unat_pred_u32)
    then show ?thesis
      by (simp add: get_ij_wf [OF wf] get_ij_wf [OF wR] wf_rows [OF wf] wf_row_length [OF wf])
  qed
  then show ?thesis using r wR by blast
qed

text \<open>
  Claim C5 on the 1x1 matrix filled with 2, divided by 4, in exact arithmetic: the result
  holds \<open>4 / 2 = 2\<close>, not \<open>1 / 2\<close>.
\<close>

theorem div_scalar_witness:
  "wf_Matrix (Matrix_fill 1 1 (2 :: real))
   \<and> unat (mat_m (Matrix_fill 1 1 (2 :: real))) < 2 ^ 32 - 1 \<and> unat (mat_n (Matrix_fill 1 1 (2 :: real))) < 2 ^ 32 - 1
   \<and> Matrix_div_scalar (Matrix_fill 1 1 (2 :: real)) 4 = Some (Inr (Matrix_fill 1 1 (2 :: real)))
   \<and> Matrix_div_scalar (Matrix_fill 1 1 (2 :: real)) 4 \<noteq> Some (Inr (Matrix_fill 1 1 (1 / 2)))"
proof -
  have w: "wf_Matrix (Matrix_fill 1 1 (2 :: real))" by (rule wf_Matrix_fill)
  have b: "unat (mat_m (Matrix_fill 1 1 (2 :: real))) < 2 ^ 32 - 1" "unat (mat_n (Matrix_fill 1 1 (2 :: real))) < 2 ^ 32 - 1"
    by (simp_all add: Matrix_fill_def)
  show ?thesis
    using div_scalar_divides_scalar_by_element [OF w b, of 4] w b
    by (auto simp: Matrix_fill_def)
qed

lemma row_loop_wraps:
  fixes A a :: "'d Matrix"
  assumes wfA: "wf_Matrix A" and A: "mat_m A = 1" "mat_n A = - 1"
    and wfa: "wf_Matrix a" and a: "unat (mat_m a) = (if sw then 4294967295 else 1)"
         "unat (mat_n a) = (if sw then 1 else 4294967295)"
  shows "for_loop (\<lambda>j a. Some (bind_r (Matrix_get_ij A 1 j)
                     (\<lambda>x. if sw then Matrix_set_ij a j 1 (h x) else Matrix_set_ij a 1 j (h x))))
           (- 1) 1 a = Some (Inl OutOfRange)"
proof (rule for_loop_wraps [where I = "\<lambda>b. wf_Matrix b \<and> mat_m b = mat_m a \<and> mat_n b = mat_n a"])
  fix k :: u32 and s :: "'d Matrix"
  assume k: "k \<noteq> 0" and I: "wf_Matrix s \<and> mat_m s = mat_m a \<and> mat_n s = mat_n a"
  have "unat k \<noteq> 0" using k by (simp add: unat_eq_zero)
  then have lt: "unat (k - 1) < 4294967295" using unat_u32_less [of k] k by (simp add: unat_pred_u32)
  have g: "Matrix_get_ij A 1 k = Inr (mat_v A ! 0 ! unat (k - 1))"
    using lt by (simp add: get_ij_wf [OF wfA] A unat_max_u32)
  show "\<exists>s'. Some (bind_r (Matrix_get_ij A 1 k)
                  (\<lambda>x. if sw then Matrix_set_ij s k 1 (h x) else Matrix_set_ij s 1 k (h x))) = Some (Inr s')
           \<and> (wf_Matrix s' \<and> mat_m s' = mat_m a \<and> mat_n s' = mat_n a)"
    using I lt a
    by (auto simp: g set_ij_wf wf_Matrix_def list_all_length nth_list_update)
next
  fix s
  show "Some (bind_r (Matrix_get_ij A 1 0)
                  (\<lambda>x. if sw then Matrix_set_ij s 0 1 (h x) else Matrix_set_ij s 1 0 (h x))) = Some (Inl OutOfRange)"
    by (simp add: get_ij_wf [OF wfA] A unat_max_u32)
qed (simp_all add: wfa)

text \<open>
  Claim C5 as stated (every matrix) fails on the matrix of 1 row and \<open>2^32 - 1\<close> columns:
  the test \<^verbatim>\<open>j <= n\<close> of the inner loop never fails, \<^verbatim>\<open>++j\<close> wraps to 0 and
  \<^verbatim>\<open>get(1, 0)\<close> throws \<^verbatim>\<open>std::out_of_range\<close>.
\<close>

theorem div_scalar_counterexample:
  "wf_Matrix (Matrix_fill 1 (- 1) (2 :: real))
   \<and> Matrix_div_scalar (Matrix_fill 1 (- 1) (2 :: real)) 4 = Some (Inl OutOfRange)"
proof -
  let ?A = "Matrix_fill 1 (- 1) (2 :: real)"
  have w: "wf_Matrix ?A" by (rule wf_Matrix_fill)
  have d: "mat_m ?A = 1" "mat_n ?A = - 1" by (simp_all add: Matrix_fill_def)
  have "for_loop (\<lambda>j a. Some (bind_r (Matrix_get_ij ?A 1 j)
                     (\<lambda>x. if False then Matrix_set_ij a j 1 (4 / x) else Matrix_set_ij a 1 j (4 / x))))
           (- 1) 1 (Matrix_fill 1 (- 1) 0) = Some (Inl OutOfRange)"
    by (rule row_loop_wraps [OF w d wf_Matrix_fill]) (simp_all add: Matrix_fill_def unat_max_u32)
  then have "Matrix_div_scalar ?A 4 = Some (Inl OutOfRange)"
    unfolding Matrix_div_scalar_def d by (subst for_loop.simps) simp
  then show ?thesis using w by simp
qed

text \<open>
  Claim C8 as stated (every matrix) fails on the matrix of 1 row and \<open>2^32 - 1\<close> columns:
  the counter of the inner loop of \<^verbatim>\<open>transpose\<close> wraps to 0 and \<^verbatim>\<open>get(1, 0)\<close> throws.
\<close>

theorem transpose_counterexample:
  "wf_Matrix (Matrix_fill 1 (- 1) (0 :: real))
   \<and> bind_o (Matrix_transpose (Matrix_fill 1 (- 1) (0 :: real))) Matrix_transpose = Some (Inl OutOfRange)"
proof -
  let ?A = "Matrix_fill 1 (- 1) (0 :: real)"
  have w: "wf_Matrix ?A" by (rule wf_Matrix_fill)
  have d: "mat_m ?A = 1" "mat_n ?A = - 1" by (simp_all add: Matrix_fill_def)
  have "for_loop (\<lambda>j a. Some (bind_r (Matrix_get_ij ?A 1 j)
                     (\<lambda>x. if True then Matrix_set_ij a j 1 (id x) else Matrix_set_ij a 1 j (id x))))
           (- 1) 1 (Matrix_fill (- 1) 1 0) = Some (Inl OutOfRange)"
    by (rule row_loop_wraps [OF w d wf_Matrix_fill]) (simp_all add: Matrix_fill_def unat_max_u32)
  then have "Matrix_transpose ?A = Some (Inl OutOfRange)"
    unfolding Matrix_transpose_def Matrix_getCols_def Matrix_getRows_def d
    by (subst for_loop.simps) simp
  then show ?thesis using w by simp
qed

text \<open>
  Claim C8 on the 2x3 matrix \<open>[[1,2,3],[4,5,6]]\<close>.
\<close>

theorem transpose_involution_witness:
  "wf_Matrix \<lparr>mat_m = 2, mat_n = 3, mat_v = [[1, 2, 3], [4, 5, 6 :: real]]\<rparr>
   \<and> unat (mat_m \<lparr>mat_m = 2, mat_n = 3, mat_v = [[1, 2, 3], [4, 5, 6 :: real]]\<rparr>) < 2 ^ 32 - 1
   \<and> unat (mat_n \<lparr>mat_m = 2, mat_n = 3, mat_v = [[1, 2, 3], [4, 5, 6 :: real]]\<rparr>) < 2 ^ 32 - 1
   \<and> bind_o (Matrix_transpose \<lparr>mat_m = 2, mat_n = 3, mat_v = [[1, 2, 3], [4, 5, 6 :: real]]\<rparr>) Matrix_transpose
       = Some (Inr \<lparr>mat_m = 2, mat_n = 3, mat_v = [[1, 2, 3], [4, 5, 6 :: real]]\<rparr>)"
proof -
  let ?A = "\<lparr>mat_m = 2, mat_n = 3, mat_v = [[1, 2, 3], [4, 5, 6 :: real]]\<rparr>"
  have w: "wf_Matrix ?A" by (simp add: wf_Matrix_def)
  have b: "unat (mat_m ?A) < 2 ^ 32 - 1" "unat (mat_n ?A) < 2 ^ 32 - 1" by simp_all
  show ?thesis using transpose_involution [OF w b] w b by simp
qed

section \<open>Addition and subtraction\<close>

lemma get_ij_of_nat_le:
  assumes "wf_Matrix B" "1 \<le> i" "i \<le> M" "M \<le> unat (mat_m B)" "1 \<le> j" "j \<le> N" "N \<le> unat (mat_n B)"
  shows "Matrix_get_ij B (of_nat i) (of_nat j) = Inr (mat_v B ! (i - 1) ! (j - 1))"
  using assms by (intro get_ij_of_nat) simp_all

lemma Matrix_plus_result:
  assumes wfA: "wf_Matrix A" and wfB: "wf_Matrix B"
    and bm: "unat (mat_m A) < 4294967295" and bn: "unat (mat_n A) < 4294967295"
    and le: "unat (mat_m A) \<le> unat (mat_m B)" "unat (mat_n A) \<le> unat (mat_n B)"
  shows "Matrix_plus A B = Some (Inr \<lparr>mat_m = mat_m A, mat_n = mat_n A,
           mat_v = map (\<lambda>p. map (\<lambda>q. mat_v A ! p ! q + mat_v B ! p ! q) [0..<unat (mat_n A)])
                     [0..<unat (mat_m A)]\<rparr>)"
  unfolding Matrix_plus_def
  by (rule elementwise_loops_gen [OF bm bn])
     (simp add: get_ij_of_nat [OF wfA] get_ij_of_nat_le [OF wfB _ _ le(1) _ _ le(2)])

lemma Matrix_minus_result:
  assumes wfA: "wf_Matrix A" and wfB: "wf_Matrix B"
    and bm: "unat (mat_m A) < 4294967295" and bn: "unat (mat_n A) < 4294967295"
    and le: "unat (mat_m A) \<le> unat (mat_m B)" "unat (mat_n A) \<le> unat (mat_n B)"
  shows "Matrix_minus A B = Some (Inr \<lparr>mat_m = mat_m A, mat_n = mat_n A,
           mat_v = map (\<lambda>p. map (\<lambda>q. mat_v A ! p ! q - mat_v B ! p ! q) [0..<unat (mat_n A)])
                     [0..<unat (mat_m A)]\<rparr>)"
  unfolding Matrix_minus_def
  by (rule elementwise_loops_gen [OF bm bn])
     (simp add: get_ij_of_nat [OF wfA] get_ij_of_nat_le [OF wfB _ _ le(1) _ _ le(2)])

text \<open>
  The first half of claim C7: on operands of equal shape (with dimensions below
  \<open>2^32 - 1\<close>) \<^verbatim>\<open>A + B\<close> and \<^verbatim>\<open>A - B\<close> are the elementwise sum and difference.
\<close>

lemma plus_minus_equal_shapes:
  assumes "wf_Matrix A" "wf_Matrix B" "mat_m B = mat_m A" "mat_n B = mat_n A"
    and "unat (mat_m A) < 2 ^ 32 - 1" "unat (mat_n A) < 2 ^ 32 - 1"
  shows "Matrix_plus A B = Some (Inr \<lparr>mat_m = mat_m A, mat_n = mat_n A,
           mat_v = map (\<lambda>p. map (\<lambda>q. mat_v A ! p ! q + mat_v B ! p ! q) [0..<unat (mat_n A)])
                     [0..<unat (mat_m A)]\<rparr>)"
    and "Matrix_minus A B = Some (Inr \<lparr>mat_m = mat_m A, mat_n = mat_n A,
           mat_v = map (\<lambda>p. map (\<lambda>q. mat_v A ! p ! q - mat_v B ! p ! q) [0..<unat (mat_n A)])
                     [0..<unat (mat_m A)]\<rparr>)"
  using assms by (simp_all add: Matrix_plus_result Matrix_minus_result)

text \<open>
  Claim C7 at a pair of operands of unequal shape: the sum and the difference of a 1x1
  matrix and a 2x2 matrix. \<^verbatim>\<open>operator+\<close> and \<^verbatim>\<open>operator-\<close> compare no dimensions (as
  \<^verbatim>\<open>operator*\<close> on two matrices does): they run over the shape of the left operand and
  read the same positions of the right one. Here both return a 1x1 matrix and report no
  error.
\<close>

theorem plus_minus_unequal_shapes_return:
  "wf_Matrix (Matrix_fill 1 1 (1 :: real))
   \<and> wf_Matrix \<lparr>mat_m = 2, mat_n = 2, mat_v = [[10, 20], [30, 40 :: real]]\<rparr>
   \<and> Matrix_plus (Matrix_fill 1 1 (1 :: real)) \<lparr>mat_m = 2, mat_n = 2, mat_v = [[10, 20], [30, 40 :: real]]\<rparr>
       = Some (Inr (Matrix_fill 1 1 11))
   \<and> Matrix_minus (Matrix_fill 1 1 (1 :: real)) \<lparr>mat_m = 2, mat_n = 2, mat_v = [[10, 20], [30, 40 :: real]]\<rparr>
       = Some (Inr (Matrix_fill 1 1 (- 9)))"
  by (simp add: wf_Matrix_def Matrix_plus_def Matrix_minus_def Matrix_fill_def for_loop.simps
      Matrix_get_ij_def Matrix_set_ij_def vector_at_def u32_not_2_le_1)

section \<open>The Armijo line search\<close>

lemma armijo_loop_result:
  assumes "armijo_loop test i = Some (Inr r)"
  shows "test r = Some (Inr True)"
proof -
  have "\<forall>r. y = Inr r \<longrightarrow> test r = Some (Inr True)" if h: "armijo_loop test i = Some y" for y
    by (rule armijo_loop.raw_induct
          [where P = "\<lambda>test i y. \<forall>r. y = Inr r \<longrightarrow> test r = Some (Inr True)", OF _ h])
       (auto split: option.splits sum.splits if_splits)
  with assms show ?thesis by blast
qed

lemma armijo_loop_diverges:
  assumes "\<And>iter. test iter = Some (Inr False)"
  shows "armijo_loop test i = None"
proof (rule ccontr)
  assume "armijo_loop test i \<noteq> None"
  then obtain y where h: "armijo_loop test i = Some y" by auto
  have "\<not> (\<forall>iter. test iter = Some (Inr False))"
  proof (rule armijo_loop.raw_induct
          [where P = "\<lambda>test i y. \<not> (\<forall>iter. test iter = Some (Inr False))", OF _ h])
    fix loop :: "(u32 \<Rightarrow> (error + bool) option) \<Rightarrow> u32 \<Rightarrow> (error + u32) option"
      and test iter y
    assume IH: "\<And>test i y. loop test i = Some y \<Longrightarrow> \<not> (\<forall>iter. test iter = Some (Inr False))"
      and eq: "(case test iter of None \<Rightarrow> None | Some (Inl e) \<Rightarrow> Some (Inl e)
                | Some (Inr b) \<Rightarrow> if b then Some (Inr iter) else loop test (iter + 1)) = Some y"
    show "\<not> (\<forall>iter. test iter = Some (Inr False))"
    proof
      assume all: "\<forall>iter. test iter = Some (Inr False)"
      then have "test iter = Some (Inr False)" by blast
      with eq have "loop test (iter + 1) = Some y" by simp
      from IH [OF this] all show False by blast
    qed
  qed
  with assms show False by blast
qed

lemma armijo_loop_finds:
  assumes "unat i + k < 4294967296"
    and "test (of_nat (unat i + k)) = Some (Inr True)"
    and "\<And>j. j < k \<Longrightarrow> test (of_nat (unat i + j)) = Some (Inr False)"
  shows "armijo_loop test i = Some (Inr (of_nat (unat i + k)))"
  using assms
proof (induction k arbitrary: i)
  case 0
  then show ?case by (subst armijo_loop.simps) simp
next
  case (Suc k)
  have f0: "test i = Some (Inr False)"
    using Suc.prems(3) [of 0] by simp
  have nx: "unat (i + 1) = Suc (unat i)" using Suc.prems(1) by (simp add: unat_Suc_u32)
  have "armijo_loop test (i + 1) = Some (Inr (of_nat (unat (i + 1) + k)))"
  proof (rule Suc.IH)
    show "unat (i + 1) + k < 4294967296" using Suc.prems(1) nx by simp
    show "test (of_nat (unat (i + 1) + k)) = Some (Inr True)"
      using Suc.prems(2) nx by simp
    show "test (of_nat (unat (i + 1) + j)) = Some (Inr False)" if "j < k" for j
      using Suc.prems(3) [of "Suc j"] that nx by simp
  qed
  then show ?case using f0 nx by (subst armijo_loop.simps) simp
qed

lemma armijo_call_finds:
  assumes "m < 4294967296"
    and "armijo_test s sigma f gradf x d (fp_pow fp beta (of_nat m)) = Some (Inr True)"
    and "\<And>k. k < m \<Longrightarrow> armijo_test s sigma f gradf x d (fp_pow fp beta (of_nat k)) = Some (Inr False)"
  shows "armijo_call fp s beta sigma f gradf x d = Some (Inr (s * fp_pow fp beta (of_nat m)))"
proof -
  let ?test = "\<lambda>iter :: u32. armijo_test s sigma f gradf x d (fp_pow fp beta iter)"
  have "armijo_loop ?test 0 = Some (Inr (of_nat (unat (0 :: u32) + m)))"
  proof (rule armijo_loop_finds)
    show "unat (0 :: u32) + m < 4294967296" using assms(1) by simp
    show "?test (of_nat (unat (0 :: u32) + m)) = Some (Inr True)"
      using assms(2) by simp
    show "?test (of_nat (unat (0 :: u32) + j)) = Some (Inr False)" if "j < m" for j
      using assms(3) [OF that] by simp
  qed
  then show ?thesis by (simp add: armijo_call_def)
qed

text \<open>
  Claim C2, as it holds on the code. The condition is the test of the loop as the code
  computes it in \<^verbatim>\<open>double\<close>, at the value \<^verbatim>\<open>pow(beta, m)\<close>. If the test holds at the
  counter \<open>m < 2^32\<close> and evaluates to false at every smaller counter, then
  \<^verbatim>\<open>armijo_call\<close> returns \<^verbatim>\<open>s * pow(beta, m)\<close>: the step of the smallest exponent at
  which the computed condition holds.
\<close>

theorem armijo_returns_first_step:
  assumes "m < 2 ^ 32"
    and "armijo_test s sigma f gradf x d (fp_pow fp beta (of_nat m)) = Some (Inr True)"
    and "\<forall>k<m. armijo_test s sigma f gradf x d (fp_pow fp beta (of_nat k)) = Some (Inr False)"
  shows "armijo_call fp s beta sigma f gradf x d = Some (Inr (s * fp_pow fp beta (of_nat m)))"
  by (rule armijo_call_finds) (use assms in simp_all)

text \<open>
  Claim C3, as it holds on the code. The loop has no iteration cap. The condition is the
  test of the loop as the code computes it in \<^verbatim>\<open>double\<close>. When the test evaluates
  (throws nothing) at every counter below \<open>2^32\<close>, \<^verbatim>\<open>armijo_call\<close> returns a step if and
  only if the test holds at some counter \<open>m < 2^32\<close>; when it holds at none of them the
  call does not return.
\<close>

theorem armijo_terminates_iff:
  assumes ev: "\<forall>k<2 ^ 32. \<exists>b. armijo_test s sigma f gradf x d (fp_pow fp beta (of_nat k)) = Some (Inr b)"
  shows "((\<exists>t. armijo_call fp s beta sigma f gradf x d = Some (Inr t))
            \<longleftrightarrow> (\<exists>m<2 ^ 32. armijo_test s sigma f gradf x d (fp_pow fp beta (of_nat m)) = Some (Inr True)))
       \<and> ((\<forall>m<2 ^ 32. armijo_test s sigma f gradf x d (fp_pow fp beta (of_nat m)) \<noteq> Some (Inr True))
            \<longrightarrow> armijo_call fp s beta sigma f gradf x d = None)"
proof (intro conjI iffI impI)
  let ?test = "\<lambda>iter :: u32. armijo_test s sigma f gradf x d (fp_pow fp beta iter)"
  assume "\<exists>t. armijo_call fp s beta sigma f gradf x d = Some (Inr t)"
  then obtain r where "armijo_loop ?test 0 = Some (Inr r)"
    by (auto simp: armijo_call_def elim!: bind_o.elims)
  then have "?test r = Some (Inr True)"
    by (rule armijo_loop_result)
  then have "armijo_test s sigma f gradf x d (fp_pow fp beta (of_nat (unat r))) = Some (Inr True)"
    by simp
  moreover have "unat r < 2 ^ 32" using unat_u32_less [of r] by simp
  ultimately show "\<exists>m<2 ^ 32. armijo_test s sigma f gradf x d (fp_pow fp beta (of_nat m)) = Some (Inr True)"
    by blast
next
  assume "\<exists>m<2 ^ 32. armijo_test s sigma f gradf x d (fp_pow fp beta (of_nat m)) = Some (Inr True)"
  then obtain m0 where m0: "m0 < 2 ^ 32"
      "armijo_test s sigma f gradf x d (fp_pow fp beta (of_nat m0)) = Some (Inr True)"
    by blast
  define m where "m = (LEAST m. armijo_test s sigma f gradf x d (fp_pow fp beta (of_nat m)) = Some (Inr True))"
  have t: "armijo_test s sigma f gradf x d (fp_pow fp beta (of_nat m)) = Some (Inr True)"
    unfolding m_def using m0(2) by (rule LeastI)
  have le: "m \<le> m0" unfolding m_def using m0(2) by (rule Least_le)
  have "armijo_test s sigma f gradf x d (fp_pow fp beta (of_nat k)) = Some (Inr False)" if "k < m" for k
  proof -
    from that have "armijo_test s sigma f gradf x d (fp_pow fp beta (of_nat k)) \<noteq> Some (Inr True)"
      unfolding m_def by (rule not_less_Least)
    moreover have "k < 2 ^ 32" using that le m0(1) by simp
    ultimately show ?thesis using ev by (metis (full_types))
  qed
  then have "armijo_call fp s beta sigma f gradf x d = Some (Inr (s * fp_pow fp beta (of_nat m)))"
    using t le m0(1) by (intro armijo_call_finds) simp_all
  then show "\<exists>t. armijo_call fp s beta sigma f gradf x d = Some (Inr t)" by blast
next
  let ?test = "\<lambda>iter :: u32. armijo_test s sigma f gradf x d (fp_pow fp beta iter)"
  assume no: "\<forall>m<2 ^ 32. armijo_test s sigma f gradf x d (fp_pow fp beta (of_nat m)) \<noteq> Some (Inr True)"
  have "?test iter = Some (Inr False)" for iter :: u32
  proof -
    have "unat iter < 2 ^ 32" using unat_u32_less [of iter] by simp
    then have "\<exists>b. armijo_test s sigma f gradf x d (fp_pow fp beta (of_nat (unat iter))) = Some (Inr b)"
      and "armijo_test s sigma f gradf x d (fp_pow fp beta (of_nat (unat iter))) \<noteq> Some (Inr True)"
      using ev no by blast+
    then show ?thesis by (auto simp: )
  qed
  then have "armijo_loop ?test 0 = None" by (rule armijo_loop_diverges)
  then show "armijo_call fp s beta sigma f gradf x d = None" by (simp add: armijo_call_def)
qed

lemma step_example_test:
  assumes "0 < p"
  shows "armijo_test 1 (1 / 2) f_step gradf_const (Matrix_fill 1 1 0) (Matrix_fill 1 1 1) p
         = Some (Inr (p \<le> 1 / 4))"
  using assms
  by (simp add: armijo_test_def scalar_times_Matrix_def Matrix_times_scalar_def Matrix_plus_def
      Matrix_t_def Matrix_transpose_def Matrix_times_def Matrix_getCols_def Matrix_getRows_def
      Matrix_x_def Matrix_fill_def for_loop.simps Matrix_get_ij_def Matrix_set_ij_def
      vector_at_def u32_not_2_le_1)

lemma slow_beta_lower:
  assumes "k < 4294967296"
  shows "1 / 4 < (1 - 1 / 8589934592 :: real) ^ k"
proof -
  have "1 + real k * (- (1 / 8589934592)) \<le> (1 + (- (1 / 8589934592)) :: real) ^ k"
    by (rule Bernoulli_inequality) simp
  moreover have "real k < 4294967296" using assms by simp
  ultimately show ?thesis by simp
qed

lemma slow_beta_upper: "(1 - 1 / 8589934592 :: real) ^ 34359738368 \<le> 1 / 4"
proof -
  let ?n = "34359738368 :: nat"
  have b: "1 + real ?n * (1 / 8589934592) \<le> (1 + 1 / 8589934592 :: real) ^ ?n"
    by (rule Bernoulli_inequality) simp
  have "(1 - 1 / 8589934592 :: real) \<le> 1 / (1 + 1 / 8589934592)"
    by (simp add: field_simps)
  then have "(1 - 1 / 8589934592 :: real) ^ ?n \<le> (1 / (1 + 1 / 8589934592)) ^ ?n"
    by (rule power_mono) simp
  also have "\<dots> = 1 / (1 + 1 / 8589934592 :: real) ^ ?n"
    by (rule power_one_over)
  also have "\<dots> \<le> 1 / (1 + real ?n * (1 / 8589934592))"
    using b by (intro divide_left_mono) (simp_all add: zero_less_power)
  also have "\<dots> \<le> 1 / 4" by simp
  finally show ?thesis .
qed

lemma slow_beta_diverges:
  "armijo_call real_fp 1 (1 - 1 / 8589934592) (1 / 2) f_step gradf_const (Matrix_fill 1 1 0) (Matrix_fill 1 1 1) = None"
proof -
  have "armijo_test 1 (1 / 2) f_step gradf_const (Matrix_fill 1 1 0) (Matrix_fill 1 1 1)
          ((1 - 1 / 8589934592) ^ unat iter) = Some (Inr False)" for iter :: u32
  proof -
    have "1 / 4 < (1 - 1 / 8589934592 :: real) ^ unat iter"
      by (rule slow_beta_lower) (rule unat_u32_less)
    moreover have "0 < (1 - 1 / 8589934592 :: real) ^ unat iter" by simp
    note step_example_test [OF this]
    ultimately show ?thesis by (simp only: not_le [symmetric] simp_thms)
  qed
  then have "armijo_loop (\<lambda>iter. armijo_test 1 (1 / 2) f_step gradf_const (Matrix_fill 1 1 0) (Matrix_fill 1 1 1)
          ((1 - 1 / 8589934592) ^ unat iter)) 0 = None"
    by (rule armijo_loop_diverges)
  then show ?thesis by (simp add: armijo_call_def real_fp_def)
qed

lemma slow_beta_satisfiable:
  "armijo_test 1 (1 / 2) f_step gradf_const (Matrix_fill 1 1 0) (Matrix_fill 1 1 1)
          ((1 - 1 / 8589934592) ^ 34359738368) = Some (Inr True)"
proof -
  have "0 < (1 - 1 / 8589934592 :: real) ^ 34359738368" by simp
  from step_example_test [OF this] slow_beta_upper show ?thesis by (simp only: simp_thms)
qed

text \<open>
  Claim C2 as stated (some integer \<open>m \<ge> 0\<close>) fails on the example with
  \<open>beta = 1 - 2^-33\<close>, in exact arithmetic: the condition holds at the exponent
  \<open>m = 2^35\<close>, but at every value of the 32-bit counter the step \<open>beta^iter\<close> is above
  1/4, the condition fails, and the counter wraps around: the search does not return.
\<close>

theorem armijo_first_step_counterexample:
  "armijo_test 1 (1 / 2) f_step gradf_const (Matrix_fill 1 1 0) (Matrix_fill 1 1 1)
          ((1 - 1 / 8589934592) ^ 34359738368) = Some (Inr True)
   \<and> armijo_call real_fp 1 (1 - 1 / 8589934592) (1 / 2) f_step gradf_const (Matrix_fill 1 1 0) (Matrix_fill 1 1 1) = None"
  using slow_beta_satisfiable slow_beta_diverges by simp

text \<open>
  Claim C3 as stated fails on the example with \<open>beta = 1 - 2^-33\<close>, in exact arithmetic:
  some integer \<open>m\<close> satisfies the condition (\<open>m = 2^35\<close>), and the search does not
  return.
\<close>

theorem armijo_terminates_counterexample:
  "\<not> ((\<exists>t. armijo_call real_fp 1 (1 - 1 / 8589934592) (1 / 2) f_step gradf_const (Matrix_fill 1 1 0) (Matrix_fill 1 1 1)
              = Some (Inr t))
       \<longleftrightarrow> (\<exists>m. armijo_test 1 (1 / 2) f_step gradf_const (Matrix_fill 1 1 0) (Matrix_fill 1 1 1)
              ((1 - 1 / 8589934592) ^ m) = Some (Inr True)))"
  using slow_beta_satisfiable slow_beta_diverges by auto

section \<open>The gradient method\<close>


lemma replicate_2: "replicate 2 x = [x, x]"
  by (simp add: numeral_2_eq_2)

lemmas example_eval =
  armijo_call_def armijo_loop.simps armijo_test_def
  scalar_times_Matrix_def Matrix_times_scalar_def Matrix_plus_def
  Matrix_t_def Matrix_transpose_def Matrix_times_def Matrix_getCols_def Matrix_getRows_def
  Matrix_mod_def Matrix_length_def
  Matrix_x_def Matrix_x1_def Matrix_x2_def Matrix_fill_def for_loop.simps
  Matrix_get_i_def Matrix_get_ij_def Matrix_set_ij_def
  vector_at_def u32_not_2_le_1 replicate_2

lemma vec2_is_Matrix_vector: "Matrix_vector [a, b] = Some (vec2 a b)"
  by (simp add: Matrix_vector_def)













section \<open>Examples for the gradient method and the line search\<close>

lemma real_fp_simps:
  "fp_sqrt real_fp = sqrt" "fp_pow real_fp b iter = b ^ unat iter" "fp_0_8 real_fp = 4 / 5"
  by (simp_all add: real_fp_def)

lemma half_square_test:
  "armijo_test (4 / 5) (4 / 5) f_half_square gradf_identity (vec2 1 0) (vec2 (- 1) 0) p
   = Some (Inr (1 / 2 - (1 + 4 / 5 * p * (- 1)) * (1 + 4 / 5 * p * (- 1)) / 2 \<ge> - (4 / 5) * (4 / 5) * p * (- 1)))"
  by (simp add: example_eval)

lemma half_square_tests:
  "armijo_test (4 / 5) (4 / 5) f_half_square gradf_identity (vec2 1 0) (vec2 (- 1) 0)
     (fp_pow real_fp (4 / 5) 0) = Some (Inr False)"
  "armijo_test (4 / 5) (4 / 5) f_half_square gradf_identity (vec2 1 0) (vec2 (- 1) 0)
     (fp_pow real_fp (4 / 5) 1) = Some (Inr False)"
  "armijo_test (4 / 5) (4 / 5) f_half_square gradf_identity (vec2 1 0) (vec2 (- 1) 0)
     (fp_pow real_fp (4 / 5) 2) = Some (Inr False)"
  "armijo_test (4 / 5) (4 / 5) f_half_square gradf_identity (vec2 1 0) (vec2 (- 1) 0)
     (fp_pow real_fp (4 / 5) 3) = Some (Inr False)"
  "armijo_test (4 / 5) (4 / 5) f_half_square gradf_identity (vec2 1 0) (vec2 (- 1) 0)
     (fp_pow real_fp (4 / 5) 4) = Some (Inr True)"
  by (subst half_square_test, simp add: real_fp_simps power_divide)+

lemma half_square_tests_below:
  assumes "k < 4"
  shows "armijo_test (4 / 5) (4 / 5) f_half_square gradf_identity (vec2 1 0) (vec2 (- 1) 0)
     (fp_pow real_fp (4 / 5) (of_nat k)) = Some (Inr False)"
proof -
  from assms have "k = 0 \<or> k = 1 \<or> k = 2 \<or> k = 3" by arith
  then show ?thesis using half_square_tests(1-4) by auto
qed


lemma zero_objective_test:
  "armijo_test (4 / 5) (4 / 5) f_zero gradf_first_axis (vec2 0 0) (vec2 (- 1) 0) p
   = Some (Inr (0 \<ge> - (4 / 5) * (4 / 5) * p * (- 1)))"
  by (simp add: example_eval)








section \<open>The line search on the examples\<close>

text \<open>
  Claim C2 on the objective \<open>(x1^2 + x2^2) / 2\<close> at \<open>x = (1, 0)\<close> in the direction
  \<open>d = (-1, 0)\<close> with \<open>s = beta = sigma = 0.8\<close>, in exact arithmetic: the test fails at the
  exponents 0 to 3, holds at 4, and the search returns \<open>0.8 * 0.8^4 = 1024/3125\<close>.
\<close>

theorem armijo_returns_first_step_witness:
  "(4 :: nat) < 2 ^ 32
   \<and> armijo_test (4 / 5) (4 / 5) f_half_square gradf_identity (vec2 1 0) (vec2 (- 1) 0)
       (fp_pow real_fp (4 / 5) (of_nat 4)) = Some (Inr True)
   \<and> armijo_test (4 / 5) (4 / 5) f_half_square gradf_identity (vec2 1 0) (vec2 (- 1) 0)
       (fp_pow real_fp (4 / 5) (of_nat 0)) = Some (Inr False)
   \<and> armijo_test (4 / 5) (4 / 5) f_half_square gradf_identity (vec2 1 0) (vec2 (- 1) 0)
       (fp_pow real_fp (4 / 5) (of_nat 1)) = Some (Inr False)
   \<and> armijo_test (4 / 5) (4 / 5) f_half_square gradf_identity (vec2 1 0) (vec2 (- 1) 0)
       (fp_pow real_fp (4 / 5) (of_nat 2)) = Some (Inr False)
   \<and> armijo_test (4 / 5) (4 / 5) f_half_square gradf_identity (vec2 1 0) (vec2 (- 1) 0)
       (fp_pow real_fp (4 / 5) (of_nat 3)) = Some (Inr False)
   \<and> armijo_call real_fp (4 / 5) (4 / 5) (4 / 5) f_half_square gradf_identity (vec2 1 0) (vec2 (- 1) 0)
       = Some (Inr (4 / 5 * fp_pow real_fp (4 / 5) (of_nat 4)))
   \<and> 4 / 5 * fp_pow real_fp (4 / 5) (of_nat 4) = 1024 / 3125"
proof -
  let ?T = "\<lambda>k :: nat. armijo_test (4 / 5) (4 / 5) f_half_square gradf_identity (vec2 1 0) (vec2 (- 1) 0)
       (fp_pow real_fp (4 / 5) (of_nat k))"
  have lt: "\<forall>k<4. ?T k = Some (Inr False)"
    by (intro allI impI) (rule half_square_tests_below)
  have t4: "?T 4 = Some (Inr True)" using half_square_tests(5) by simp
  have "armijo_call real_fp (4 / 5) (4 / 5) (4 / 5) f_half_square gradf_identity (vec2 1 0) (vec2 (- 1) 0)
       = Some (Inr (4 / 5 * fp_pow real_fp (4 / 5) (of_nat 4)))"
    by (rule armijo_returns_first_step [OF _ t4 lt]) simp
  moreover have "4 / 5 * fp_pow real_fp (4 / 5) (of_nat 4) = 1024 / 3125"
    by (simp add: real_fp_simps power_divide)
  ultimately show ?thesis
    using t4 half_square_tests_below [of 0] half_square_tests_below [of 1]
      half_square_tests_below [of 2] half_square_tests_below [of 3]
    by simp
qed

text \<open>
  Claim C3 in exact arithmetic: on the objective \<open>(x1^2 + x2^2) / 2\<close> the test holds at
  \<open>m = 4\<close> and the search returns; on the constant objective with the gradient
  \<open>(1, 0)\<close> the test fails at every counter and the search does not return.
\<close>

theorem armijo_terminates_iff_witness:
  "(\<exists>t. armijo_call real_fp (4 / 5) (4 / 5) (4 / 5) f_half_square gradf_identity (vec2 1 0) (vec2 (- 1) 0)
       = Some (Inr t))
   \<and> (4 :: nat) < 2 ^ 32
   \<and> armijo_test (4 / 5) (4 / 5) f_half_square gradf_identity (vec2 1 0) (vec2 (- 1) 0)
       (fp_pow real_fp (4 / 5) (of_nat 4)) = Some (Inr True)
   \<and> armijo_call real_fp (4 / 5) (4 / 5) (4 / 5) f_zero gradf_first_axis (vec2 0 0) (vec2 (- 1) 0) = None"
proof -
  let ?T = "\<lambda>k :: nat. armijo_test (4 / 5) (4 / 5) f_half_square gradf_identity (vec2 1 0) (vec2 (- 1) 0)
       (fp_pow real_fp (4 / 5) (of_nat k))"
  let ?Z = "\<lambda>k :: nat. armijo_test (4 / 5) (4 / 5) f_zero gradf_first_axis (vec2 0 0) (vec2 (- 1) 0)
       (fp_pow real_fp (4 / 5) (of_nat k))"
  have ev: "\<forall>k<2 ^ 32. \<exists>b. ?T k = Some (Inr b)"
    by (intro allI impI exI) (rule half_square_test)
  have t4: "?T 4 = Some (Inr True)" using half_square_tests(5) by simp
  then have ex: "\<exists>m<2 ^ 32. ?T m = Some (Inr True)"
    by (intro exI [of _ 4]) simp
  have r: "\<exists>t. armijo_call real_fp (4 / 5) (4 / 5) (4 / 5) f_half_square gradf_identity (vec2 1 0) (vec2 (- 1) 0)
       = Some (Inr t)"
    using armijo_terminates_iff [OF ev] ex by blast
  have zf: "?Z k = Some (Inr False)" for k
  proof -
    have "0 < (4 / 5 :: real) ^ unat (of_nat k :: u32)" by simp
    then show ?thesis
      by (subst zero_objective_test) (simp add: real_fp_simps not_le mult_pos_pos)
  qed
  have evz: "\<forall>k<2 ^ 32. \<exists>b. ?Z k = Some (Inr b)"
    using zf by blast
  have noz: "\<forall>m<2 ^ 32. ?Z m \<noteq> Some (Inr True)"
    using zf by simp
  have n: "armijo_call real_fp (4 / 5) (4 / 5) (4 / 5) f_zero gradf_first_axis (vec2 0 0) (vec2 (- 1) 0) = None"
    using armijo_terminates_iff [OF evz] noz by blast
  show ?thesis using r t4 n by simp
qed

end
